theory Spec2Isabelle
  imports Main "HOL-Library.Word"
begin

section \<open>Data model of \<^verbatim>\<open>expression.c\<close>\<close>

text \<open>
  Indices into the token vector are \<^verbatim>\<open>size_t\<close>: 64-bit words whose arithmetic wraps.
  The token vector holds the token texts of one statement.
\<close>

type_synonym size_t = "64 word"
type_synonym vec = "string list"
type_synonym line = nat

text \<open>
  Modelled from the spec: \<^verbatim>\<open>raise_compiler_error\<close> is declared in \<^verbatim>\<open>util.h\<close> and defined in none
  of the sources; by the specification it reports the message with the location of the
  statement and never returns. \<open>Compiler_Error\<close> is such a call, with its message and line.
  The other three failures are the places where the C program leaves defined behaviour: a
  read beyond the end of a vector or array, a read through a null pointer, and a read of a
  cell that nothing has written.
\<close>

datatype error =
    Compiler_Error string line
  | Out_Of_Range_Read
  | Null_Dereference
  | Indeterminate_Read

datatype assembly_generator =
    mul_assembly | div_assembly | mod_assembly | add_assembly | sub_assembly
  | assignment_assembly

text \<open>
  Modelled from the spec: the node builders \<^verbatim>\<open>literal_node_new\<close>, \<^verbatim>\<open>var_node_new\<close> and
  \<^verbatim>\<open>binary_operation_new\<close> of \<^verbatim>\<open>ast_node.h\<close> are not among the sources. A node is a leaf (literal or
  variable, with its type and text) or a binary operation (result type, left and right child,
  emission handler). A child is a pointer, so \<open>None\<close> is the null pointer. The type of types
  is a parameter \<open>'ty\<close>.
\<close>

datatype 'ty ast_node =
    literal_node_new 'ty string
  | var_node_new 'ty string
  | binary_operation_new 'ty "'ty ast_node option" "'ty ast_node option" assembly_generator

fun expr_type :: "'ty ast_node \<Rightarrow> 'ty" where
  "expr_type (literal_node_new t tok) = t"
| "expr_type (var_node_new t tok) = t"
| "expr_type (binary_operation_new t l r g) = t"

text \<open>
  Modelled from the spec: the namespace and \<^verbatim>\<open>var_lookup\<close> are not among the sources. A
  namespace maps a declared name to its node; \<open>None\<close> is the null pointer returned for an
  undeclared name.
\<close>

type_synonym 'ty namespace = "string \<Rightarrow> 'ty ast_node option"

definition var_lookup :: "'ty namespace \<Rightarrow> string \<Rightarrow> 'ty ast_node option" where
  "var_lookup nsp name = nsp name"

text \<open>
  Modelled from the spec: \<^verbatim>\<open>vec.h\<close> is not among the sources. A vector is a 0-indexed sequence;
  \<^verbatim>\<open>vec_get\<close> at an index that is not below its length is a read out of range. The stack of open
  parentheses pushes and pops at the end.
\<close>

definition vec_get :: "'a list \<Rightarrow> size_t \<Rightarrow> error + 'a" where
  "vec_get v i = (if unat i < length v then Inr (v ! unat i) else Inl Out_Of_Range_Read)"

definition vec_new :: "'a list" where
  "vec_new = []"

definition vec_push_val :: "'a list \<Rightarrow> 'a \<Rightarrow> 'a list" where
  "vec_push_val v x = v @ [x]"

definition vec_len :: "'a list \<Rightarrow> nat" where
  "vec_len v = length v"

definition vec_pop_val :: "'a list \<Rightarrow> 'a \<times> 'a list" where
  "vec_pop_val v = (last v, butlast v)"

abbreviation PAREN_OPEN :: string where "PAREN_OPEN \<equiv> ''(''"
abbreviation PAREN_CLOSE :: string where "PAREN_CLOSE \<equiv> '')''"

definition COMMON_PRECEDENCE_GROUPS :: size_t where
  "COMMON_PRECEDENCE_GROUPS = 3"

text \<open>
  The parser state \<^verbatim>\<open>struct expression_parser_s\<close>. The field \<^verbatim>\<open>end\<close> is \<open>end_index\<close> here.
  \<open>paren_matches\<close> is a pointer to an array of indices: the cell at offset \<open>k\<close> is
  \<open>paren_matches p k\<close>, and \<open>None\<close> is a cell that cannot be read with a defined result.
\<close>

record 'ty expression_parser =
  tokenv :: vec
  line :: line
  token :: string
  token_index :: size_t
  expr_start :: size_t
  start :: size_t
  end_index :: size_t
  op_group_index :: size_t
  paren_matches :: "size_t \<Rightarrow> size_t option"
  ns :: "'ty namespace"

text \<open>
  The handlers of the operator table are function pointers; \<open>parse_func\<close> names them.
\<close>

datatype parse_func =
    assignment_parser_ptr | add_parser_ptr | sub_parser_ptr
  | mul_parser_ptr | div_parser_ptr | mod_parser_ptr

definition operators :: "(string \<times> parse_func) list list" where
  "operators =
    [ [(''='', assignment_parser_ptr)],
      [(''+'', add_parser_ptr), (''-'', sub_parser_ptr)],
      [(''*'', mul_parser_ptr), (''/'', div_parser_ptr), (''%'', mod_parser_ptr)] ]"

text \<open>
  The loop of \<^verbatim>\<open>compile_operator\<close> over one group of the table: the first entry whose text
  equals the token.
\<close>

fun find_operator :: "string \<Rightarrow> (string \<times> parse_func) list \<Rightarrow> parse_func option" where
  "find_operator tok [] = None"
| "find_operator tok ((operator_token, f) # ops) =
     (if tok = operator_token then Some f else find_operator tok ops)"

section \<open>The parenthesis matcher\<close>

text \<open>
  \<^verbatim>\<open>match_parens\<close>: the loop over \<open>i\<close> from \<open>s\<close> (the range's start) to \<open>e\<close> (its end). The
  token it compares is \<^verbatim>\<open>vec_get(tokenv, start)\<close> at every \<open>i\<close>. The result is the returned
  flag and the array \<^verbatim>\<open>matches\<close> as the loop leaves it.
\<close>

function match_parens_loop ::
  "vec \<Rightarrow> size_t \<Rightarrow> size_t \<Rightarrow> size_t \<Rightarrow> size_t list \<Rightarrow> (size_t \<Rightarrow> size_t option)
    \<Rightarrow> error + (bool \<times> (size_t \<Rightarrow> size_t option))" where
  "match_parens_loop tv s e i open_parens matches =
     (if i < e then
        (case vec_get tv s of
           Inl err \<Rightarrow> Inl err
         | Inr tok \<Rightarrow>
             if tok = PAREN_OPEN then
               match_parens_loop tv s e (i + 1) (vec_push_val open_parens i) matches
             else if tok = PAREN_CLOSE then
               (if vec_len open_parens = 0 then Inr (False, matches)
                else match_parens_loop tv s e (i + 1) (snd (vec_pop_val open_parens))
                       (matches (i - s \<mapsto> fst (vec_pop_val open_parens))))
             else match_parens_loop tv s e (i + 1) open_parens matches)
      else Inr (vec_len open_parens = 0, matches))"
  by pat_completeness auto

termination
proof (relation "measure (\<lambda>(tv, s, e, i, open_parens, matches). unat e - unat i)")
  show "wf (measure (\<lambda>(tv, s, e, i, open_parens, matches). unat e - unat i))"
    by simp
next
  fix tv :: vec and s e i :: size_t and open_parens :: "size_t list"
    and matches :: "size_t \<Rightarrow> size_t option"
  assume "i < e"
  then have "unat e - unat (i + 1) < unat e - unat i"
    by unat_arith
  then show "((tv, s, e, i + 1, vec_push_val open_parens i, matches),
               (tv, s, e, i, open_parens, matches))
              \<in> measure (\<lambda>(tv, s, e, i, open_parens, matches). unat e - unat i)"
    and "((tv, s, e, i + 1, snd (vec_pop_val open_parens),
               matches(i - s \<mapsto> fst (vec_pop_val open_parens))),
               (tv, s, e, i, open_parens, matches))
              \<in> measure (\<lambda>(tv, s, e, i, open_parens, matches). unat e - unat i)"
    and "((tv, s, e, i + 1, open_parens, matches), (tv, s, e, i, open_parens, matches))
              \<in> measure (\<lambda>(tv, s, e, i, open_parens, matches). unat e - unat i)"
    by simp_all
qed

definition match_parens ::
  "vec \<Rightarrow> size_t \<Rightarrow> size_t \<Rightarrow> (size_t \<Rightarrow> size_t option)
    \<Rightarrow> error + (bool \<times> (size_t \<Rightarrow> size_t option))" where
  "match_parens tv s e matches = match_parens_loop tv s e s vec_new matches"

section \<open>The expression parser\<close>

text \<open>
  \<^verbatim>\<open>get_literal_type\<close> is not among the sources: it is the parameter \<open>glt\<close> of every function
  below, \<open>None\<close> being its null result.

  \<^verbatim>\<open>parse_value\<close>: the token at \<^verbatim>\<open>start\<close>, tried as a literal, then as a variable.
\<close>

definition parse_value ::
  "(string \<Rightarrow> 'ty option) \<Rightarrow> 'ty expression_parser \<Rightarrow> error + 'ty ast_node option" where
  "parse_value glt p =
     (case vec_get (tokenv p) (start p) of
        Inl err \<Rightarrow> Inl err
      | Inr tok \<Rightarrow>
          (case glt tok of
             Some literal_type \<Rightarrow> Inr (Some (literal_node_new literal_type tok))
           | None \<Rightarrow>
               (case var_lookup (ns p) tok of
                  Some var \<Rightarrow> Inr (Some (var_node_new (expr_type var) tok))
                | None \<Rightarrow> Inl (Compiler_Error ''Invalid Value'' (line p)))))"

text \<open>
  The recursive core. The scan of \<^verbatim>\<open>parse_sub_expression\<close> can jump anywhere through
  \<open>paren_matches\<close>, so the functions take fuel: the outer \<open>None\<close> is fuel used up, \<open>Some (Inl err)\<close>
  a failure, \<open>Some (Inr None)\<close> a returned null pointer and \<open>Some (Inr (Some node))\<close> a
  returned node. Fuel goes down by one at each entry of \<open>parse_sub_expression\<close> and
  at each test of the \<^verbatim>\<open>while\<close> condition.

  The parser state is passed by pointer, but every caller passes a copy of its own state or
  drops the state after the call, so the functions return no state.
  \<^item> \<open>scan_groups\<close> is the \<^verbatim>\<open>for\<close> loop over \<open>op_group_index\<close>, at its test;
  \<^item> \<open>scan_tokens\<close> is the \<^verbatim>\<open>while\<close> loop over \<open>token_index\<close>, at its test;
  \<^item> \<open>call_parse_func\<close> is the call through the pointer \<^verbatim>\<open>op->parse_func\<close>.
  \<^verbatim>\<open>compile_operator\<close> is called inside the \<^verbatim>\<open>for\<close> loop only, where \<open>op_group_index\<close> is
  below 3; with any other index its read of the table would be out of range.
  \<^verbatim>\<open>puts("Assignment")\<close> in \<^verbatim>\<open>assignment_parser\<close> writes to the standard output only.
\<close>

function (sequential) parse_sub_expression ::
    "nat \<Rightarrow> (string \<Rightarrow> 'ty option) \<Rightarrow> 'ty expression_parser
      \<Rightarrow> (error + 'ty ast_node option) option"
  and parse_parenthetical_expression ::
    "nat \<Rightarrow> (string \<Rightarrow> 'ty option) \<Rightarrow> 'ty expression_parser
      \<Rightarrow> (error + 'ty ast_node option) option"
  and scan_groups ::
    "nat \<Rightarrow> (string \<Rightarrow> 'ty option) \<Rightarrow> 'ty expression_parser
      \<Rightarrow> (error + 'ty ast_node option) option"
  and scan_tokens ::
    "nat \<Rightarrow> (string \<Rightarrow> 'ty option) \<Rightarrow> 'ty expression_parser
      \<Rightarrow> (error + 'ty ast_node option) option"
  and compile_operator ::
    "nat \<Rightarrow> (string \<Rightarrow> 'ty option) \<Rightarrow> 'ty expression_parser
      \<Rightarrow> (error + 'ty ast_node option) option"
  and call_parse_func ::
    "nat \<Rightarrow> (string \<Rightarrow> 'ty option) \<Rightarrow> parse_func \<Rightarrow> 'ty expression_parser
      \<Rightarrow> (error + 'ty ast_node option) option"
  and binary_operation_parser ::
    "nat \<Rightarrow> (string \<Rightarrow> 'ty option) \<Rightarrow> 'ty expression_parser \<Rightarrow> assembly_generator
      \<Rightarrow> (error + 'ty ast_node option) option"
  and assignment_parser ::
    "nat \<Rightarrow> (string \<Rightarrow> 'ty option) \<Rightarrow> 'ty expression_parser
      \<Rightarrow> (error + 'ty ast_node option) option"
where
  "parse_sub_expression 0 glt p = None"
| "parse_sub_expression (Suc n) glt p =
     (if start p + 1 = end_index p then Some (parse_value glt p)
      else
        (case vec_get (tokenv p) (start p) of
           Inl err \<Rightarrow> Some (Inl err)
         | Inr first_token \<Rightarrow>
             if first_token = PAREN_OPEN then
               (case vec_get (tokenv p) (end_index p) of
                  Inl err \<Rightarrow> Some (Inl err)
                | Inr end_token \<Rightarrow>
                    if end_token = PAREN_CLOSE then parse_parenthetical_expression n glt p
                    else scan_groups n glt p)
             else scan_groups n glt p))"
| "parse_parenthetical_expression n glt p =
     parse_sub_expression n glt (p\<lparr>start := start p + 1, end_index := end_index p - 1\<rparr>)"
| "scan_groups n glt p =
     (if op_group_index p < COMMON_PRECEDENCE_GROUPS then
        scan_tokens n glt (p\<lparr>token_index := end_index p - 1\<rparr>)
      else Some (Inr None))"
| "scan_tokens 0 glt p = None"
| "scan_tokens (Suc n) glt p =
     (if token_index p \<ge> start p then
        (case vec_get (tokenv p) (token_index p) of
           Inl err \<Rightarrow> Some (Inl err)
         | Inr tok \<Rightarrow>
             if tok = PAREN_CLOSE then
               (case paren_matches p (token_index p - expr_start p) of
                  None \<Rightarrow> Some (Inl Indeterminate_Read)
                | Some m \<Rightarrow> scan_tokens n glt (p\<lparr>token := tok, token_index := m - 1\<rparr>))
             else
               (case compile_operator n glt (p\<lparr>token := tok\<rparr>) of
                  None \<Rightarrow> None
                | Some (Inl err) \<Rightarrow> Some (Inl err)
                | Some (Inr (Some operator_node)) \<Rightarrow> Some (Inr (Some operator_node))
                | Some (Inr None) \<Rightarrow>
                    scan_tokens n glt (p\<lparr>token := tok, token_index := token_index p - 1\<rparr>)))
      else scan_groups n glt (p\<lparr>op_group_index := op_group_index p + 1\<rparr>))"
| "compile_operator n glt p =
     (if unat (op_group_index p) < length operators then
        (case find_operator (token p) (operators ! unat (op_group_index p)) of
           Some f \<Rightarrow> call_parse_func n glt f p
         | None \<Rightarrow> Some (Inr None))
      else Some (Inl Out_Of_Range_Read))"
| "call_parse_func n glt assignment_parser_ptr p = assignment_parser n glt p"
| "call_parse_func n glt add_parser_ptr p = binary_operation_parser n glt p add_assembly"
| "call_parse_func n glt sub_parser_ptr p = binary_operation_parser n glt p sub_assembly"
| "call_parse_func n glt mul_parser_ptr p = binary_operation_parser n glt p mul_assembly"
| "call_parse_func n glt div_parser_ptr p = binary_operation_parser n glt p div_assembly"
| "call_parse_func n glt mod_parser_ptr p = binary_operation_parser n glt p mod_assembly"
| "binary_operation_parser n glt p asm =
     (case parse_sub_expression n glt (p\<lparr>end_index := token_index p\<rparr>) of
        None \<Rightarrow> None
      | Some (Inl err) \<Rightarrow> Some (Inl err)
      | Some (Inr left) \<Rightarrow>
          (case parse_sub_expression n glt (p\<lparr>start := token_index p + 1\<rparr>) of
             None \<Rightarrow> None
           | Some (Inl err) \<Rightarrow> Some (Inl err)
           | Some (Inr None) \<Rightarrow> Some (Inl Null_Dereference)
           | Some (Inr (Some right)) \<Rightarrow>
               Some (Inr (Some (binary_operation_new (expr_type right) left (Some right) asm)))))"
| "assignment_parser n glt p =
     (if token_index p - expr_start p \<noteq> 1 then
        Some (Inl (Compiler_Error ''Invalid Assignment'' (line p)))
      else
        (case vec_get (tokenv p) (token_index p - 1) of
           Inl err \<Rightarrow> Some (Inl err)
         | Inr name \<Rightarrow>
             (case parse_sub_expression n glt (p\<lparr>start := token_index p + 1\<rparr>) of
                None \<Rightarrow> None
              | Some (Inl err) \<Rightarrow> Some (Inl err)
              | Some (Inr None) \<Rightarrow> Some (Inl Null_Dereference)
              | Some (Inr (Some val)) \<Rightarrow>
                  Some (Inr (Some (binary_operation_new (expr_type val)
                    (var_lookup (ns p) name) (Some val) assignment_assembly))))))"
  by pat_completeness auto

text \<open>
  Fuel is the measure: four times the fuel, plus the length of the longest chain of calls
  that leads from the function to the next use of fuel.
\<close>

termination
  by (relation "measure (\<lambda>x. case x of
       Inl (Inl (Inl (n, glt, p))) \<Rightarrow> 4 * n
     | Inl (Inl (Inr (n, glt, p))) \<Rightarrow> 4 * n + 1
     | Inl (Inr (Inl (n, glt, p))) \<Rightarrow> 4 * n + 1
     | Inl (Inr (Inr (n, glt, p))) \<Rightarrow> 4 * n
     | Inr (Inl (Inl (n, glt, p))) \<Rightarrow> 4 * n + 3
     | Inr (Inl (Inr (n, glt, f, p))) \<Rightarrow> 4 * n + 2
     | Inr (Inr (Inl (n, glt, p, asm))) \<Rightarrow> 4 * n + 1
     | Inr (Inr (Inr (n, glt, p))) \<Rightarrow> 4 * n + 1)") simp_all

text \<open>
  The five handlers of the binary operators, as the table names them.
\<close>

definition mul_parser ::
  "nat \<Rightarrow> (string \<Rightarrow> 'ty option) \<Rightarrow> 'ty expression_parser
    \<Rightarrow> (error + 'ty ast_node option) option" where
  "mul_parser n glt p = binary_operation_parser n glt p mul_assembly"

definition div_parser ::
  "nat \<Rightarrow> (string \<Rightarrow> 'ty option) \<Rightarrow> 'ty expression_parser
    \<Rightarrow> (error + 'ty ast_node option) option" where
  "div_parser n glt p = binary_operation_parser n glt p div_assembly"

definition mod_parser ::
  "nat \<Rightarrow> (string \<Rightarrow> 'ty option) \<Rightarrow> 'ty expression_parser
    \<Rightarrow> (error + 'ty ast_node option) option" where
  "mod_parser n glt p = binary_operation_parser n glt p mod_assembly"

definition add_parser ::
  "nat \<Rightarrow> (string \<Rightarrow> 'ty option) \<Rightarrow> 'ty expression_parser
    \<Rightarrow> (error + 'ty ast_node option) option" where
  "add_parser n glt p = binary_operation_parser n glt p add_assembly"

definition sub_parser ::
  "nat \<Rightarrow> (string \<Rightarrow> 'ty option) \<Rightarrow> 'ty expression_parser
    \<Rightarrow> (error + 'ty ast_node option) option" where
  "sub_parser n glt p = binary_operation_parser n glt p sub_assembly"

text \<open>
  \<^verbatim>\<open>init_expression_parser\<close> writes seven fields of the struct it is given and leaves
  \<^verbatim>\<open>token\<close>, \<^verbatim>\<open>token_index\<close> and \<^verbatim>\<open>paren_matches\<close> as they were.
\<close>

definition init_expression_parser ::
  "'ty expression_parser \<Rightarrow> vec \<Rightarrow> line \<Rightarrow> size_t \<Rightarrow> size_t \<Rightarrow> 'ty namespace
    \<Rightarrow> 'ty expression_parser" where
  "init_expression_parser parser tv curr_line s e nsp =
     parser\<lparr>tokenv := tv, expr_start := s, start := s, end_index := e, line := curr_line,
       op_group_index := 0, ns := nsp\<rparr>"

text \<open>
  The local \<^verbatim>\<open>expression_parser parser\<close> of \<^verbatim>\<open>parse_expression\<close> before it is initialised.
  Its pointer \<^verbatim>\<open>paren_matches\<close> has never been assigned, so none of its cells can be read.
  \<^verbatim>\<open>token\<close> and \<^verbatim>\<open>token_index\<close> are written by the scan before it reads them, and the
  other fields are written by \<^verbatim>\<open>init_expression_parser\<close>.
\<close>

definition uninitialized_parser :: "'ty expression_parser" where
  "uninitialized_parser =
     \<lparr>tokenv = [], line = 0, token = [], token_index = 0, expr_start = 0, start = 0,
      end_index = 0, op_group_index = 0, paren_matches = (\<lambda>k. None), ns = (\<lambda>name. None)\<rparr>"

text \<open>
  \<^verbatim>\<open>parse_expression\<close>. The array \<^verbatim>\<open>paren_matches\<close> it declares starts with no cell written;
  \<^verbatim>\<open>match_parens\<close> fills it, and nothing stores it in the parser. The array has
  \<open>end - start\<close> cells: the function is given a value here also when \<open>end \<le> start\<close>, where
  the C declares an array of no cell or of nearly \<open>2^64\<close> cells; the results on statements
  below are all for ranges with \<open>start < end\<close>.
\<close>

definition parse_expression ::
  "nat \<Rightarrow> (string \<Rightarrow> 'ty option) \<Rightarrow> vec \<Rightarrow> line \<Rightarrow> size_t \<Rightarrow> size_t \<Rightarrow> 'ty namespace
    \<Rightarrow> (error + 'ty ast_node option) option" where
  "parse_expression n glt tv curr_line s e nsp =
     (case match_parens tv s e (\<lambda>k. None) of
        Inl err \<Rightarrow> Some (Inl err)
      | Inr (valid_parens, matches) \<Rightarrow>
          if \<not> valid_parens then
            Some (Inl (Compiler_Error ''Mismatched Parentheses'' curr_line))
          else
            parse_sub_expression n glt
              (init_expression_parser uninitialized_parser tv curr_line s e nsp))"

section \<open>Collaborators and states for concrete statements\<close>

text \<open>
  A literal-type inference that knows the literals \<open>1\<close> and \<open>2\<close>, and a namespace that
  declares \<open>a\<close>, \<open>b\<close>, \<open>c\<close> and \<open>x\<close>, all of type \<open>int\<close>.
\<close>

definition literal_type_int :: "string \<Rightarrow> string option" where
  "literal_type_int tok = (if tok = ''1'' \<or> tok = ''2'' then Some ''int'' else None)"

definition namespace_abcx :: "string namespace" where
  "namespace_abcx name =
     (if name = ''a'' \<or> name = ''b'' \<or> name = ''c'' \<or> name = ''x''
      then Some (var_node_new ''int'' name) else None)"

text \<open>
  The state of \<^verbatim>\<open>parse_sub_expression\<close> for the range \<open>( a )\<close> at indices 1 to 3 of
  \<open>k ( a ) ;\<close>, with the match table a correct matcher would give: the closing parenthesis
  at offset 2 from \<open>expr_start\<close> matches the opening one at index 1.
\<close>

definition parser_paren_a :: "string expression_parser" where
  "parser_paren_a =
     \<lparr>tokenv = [''k'', ''('', ''a'', '')'', '';''], line = 7, token = [], token_index = 0,
      expr_start = 1, start = 1, end_index = 4, op_group_index = 0,
      paren_matches = [2 \<mapsto> 1], ns = namespace_abcx\<rparr>"

text \<open>
  The state of \<^verbatim>\<open>parse_sub_expression\<close> for the interior of \<open>( a * ( b + c ) )\<close>, the range
  \<open>a * ( b + c )\<close> at indices 1 to 7, in the lowest group and with the match table a correct
  matcher would give for the whole expression: the closing parenthesis at index 7 matches the
  opening one at index 3, the one at index 8 the one at index 0. The token at index \<open>end\<close>
  is the closing parenthesis of the outer pair.
\<close>

definition parser_product_of_sum :: "string expression_parser" where
  "parser_product_of_sum =
     \<lparr>tokenv = [''('', ''a'', ''*'', ''('', ''b'', ''+'', ''c'', '')'', '')''], line = 7,
      token = [], token_index = 0, expr_start = 0, start = 1, end_index = 8,
      op_group_index = 0, paren_matches = [7 \<mapsto> 3, 8 \<mapsto> 0], ns = namespace_abcx\<rparr>"

text \<open>
  The state in which the scan of that range has found \<open>*\<close> at index 2 in the third group:
  the state \<^verbatim>\<open>mul_parser\<close> is called with.
\<close>

definition parser_star_found :: "string expression_parser" where
  "parser_star_found =
     parser_product_of_sum\<lparr>op_group_index := 2, token_index := 2, token := ''*''\<rparr>"

text \<open>
  A state for one token: the range from index 1 to index 2 of three tokens.
\<close>

definition parser_single :: "vec \<Rightarrow> string expression_parser" where
  "parser_single tv =
     \<lparr>tokenv = tv, line = 7, token = [], token_index = 0, expr_start = 1, start = 1,
      end_index = 2, op_group_index = 0, paren_matches = (\<lambda>k. None), ns = namespace_abcx\<rparr>"

section \<open>Notions for the statements\<close>

text \<open>
  The emission handler that each handler of the table passes to the node builder.
\<close>

fun assembly_generator_of :: "parse_func \<Rightarrow> assembly_generator" where
  "assembly_generator_of assignment_parser_ptr = assignment_assembly"
| "assembly_generator_of add_parser_ptr = add_assembly"
| "assembly_generator_of sub_parser_ptr = sub_assembly"
| "assembly_generator_of mul_parser_ptr = mul_assembly"
| "assembly_generator_of div_parser_ptr = div_assembly"
| "assembly_generator_of mod_parser_ptr = mod_assembly"

text \<open>
  The operand recursion as the specification words it, for comparison with
  \<open>binary_operation_parser\<close>: both operands are parsed from the lowest group again.
\<close>

definition binary_operation_parser_restart ::
  "nat \<Rightarrow> (string \<Rightarrow> 'ty option) \<Rightarrow> 'ty expression_parser \<Rightarrow> assembly_generator
    \<Rightarrow> (error + 'ty ast_node option) option" where
  "binary_operation_parser_restart n glt p asm =
     binary_operation_parser n glt (p\<lparr>op_group_index := 0\<rparr>) asm"

text \<open>
  A token that the scan of group \<open>g\<close> passes over: it is no closing parenthesis and
  \<^verbatim>\<open>compile_operator\<close> finds no operator of the group in it. An operand token is passed
  over in every group and is no opening parenthesis either.
\<close>

definition skipped :: "size_t \<Rightarrow> string \<Rightarrow> bool" where
  "skipped g tok = (tok \<noteq> PAREN_CLOSE \<and> find_operator tok (operators ! unat g) = None)"

definition operand_token :: "string \<Rightarrow> bool" where
  "operand_token tok = (tok \<noteq> PAREN_OPEN \<and> skipped 0 tok \<and> skipped 1 tok \<and> skipped 2 tok)"

text \<open>
  What \<^verbatim>\<open>parse_value\<close> gives for the token at index \<open>j\<close>: it reads the token vector, the
  start index, the namespace and the line of its state, and nothing else.
\<close>

definition value_at ::
  "(string \<Rightarrow> 'ty option) \<Rightarrow> 'ty namespace \<Rightarrow> line \<Rightarrow> vec \<Rightarrow> size_t
    \<Rightarrow> error + 'ty ast_node option" where
  "value_at glt nsp curr_line tv j =
     parse_value glt
       \<lparr>tokenv = tv, line = curr_line, token = [], token_index = 0, expr_start = 0, start = j,
        end_index = j + 1, op_group_index = 0, paren_matches = (\<lambda>k. None), ns = nsp\<rparr>"

text \<open>
  The copy \<^verbatim>\<open>val_parser\<close> that \<^verbatim>\<open>assignment_parser\<close> makes when the scan of the statement from
  \<open>s\<close> to \<open>e\<close> has found \<open>=\<close> at index \<open>i\<close>: the state of the statement with the start
  moved behind the \<open>=\<close>.
\<close>

definition value_parser ::
  "vec \<Rightarrow> line \<Rightarrow> size_t \<Rightarrow> size_t \<Rightarrow> size_t \<Rightarrow> 'ty namespace \<Rightarrow> 'ty expression_parser" where
  "value_parser tv curr_line s e i nsp =
     (init_expression_parser uninitialized_parser tv curr_line s e nsp)
       \<lparr>token := ''='', token_index := i, start := i + 1\<rparr>"

section \<open>Evaluation\<close>

declare match_parens_loop.simps [simp del]

lemmas parse_sub_expression_numeral =
  parse_sub_expression.simps(2) [of "pred_numeral k" for k, folded numeral_eq_Suc]

lemmas scan_tokens_numeral =
  scan_tokens.simps(2) [of "pred_numeral k" for k, folded numeral_eq_Suc]

lemma unat_max_size_t: "unat (- 1 :: size_t) = 18446744073709551615"
  by (simp add: unsigned_minus_1_eq_mask mask_eq_exp_minus_1)

lemmas eval_parser =
  parse_sub_expression_numeral scan_tokens_numeral parse_expression_def
  init_expression_parser_def uninitialized_parser_def parse_value_def vec_get_def
  var_lookup_def operators_def COMMON_PRECEDENCE_GROUPS_def
  literal_type_int_def namespace_abcx_def
  word_le_nat_alt word_less_nat_alt unat_max_size_t

lemmas eval_matcher =
  match_parens_def match_parens_loop.simps vec_new_def vec_push_val_def
  vec_len_def vec_pop_val_def

text \<open>
  The call through a pointer of the table is the call of the handler the table names.
\<close>

lemma call_parse_func_handlers:
  "call_parse_func n glt add_parser_ptr p = add_parser n glt p"
  "call_parse_func n glt sub_parser_ptr p = sub_parser n glt p"
  "call_parse_func n glt mul_parser_ptr p = mul_parser n glt p"
  "call_parse_func n glt div_parser_ptr p = div_parser n glt p"
  "call_parse_func n glt mod_parser_ptr p = mod_parser n glt p"
  by (simp_all add: add_parser_def sub_parser_def mul_parser_def div_parser_def mod_parser_def)

section \<open>Fuel\<close>

text \<open>
  Fuel only bounds the depth of the calls: a result returned with some fuel is the result
  returned with any larger fuel. The proof follows the calls, first from a function to the
  ones it calls with the same fuel, then by induction on the fuel.
\<close>

lemma more_fuel_step:
  fixes glt :: "string \<Rightarrow> 'ty option"
  assumes ps: "\<And>(p :: 'ty expression_parser) r. parse_sub_expression n glt p = Some r
      \<Longrightarrow> parse_sub_expression (Suc n) glt p = Some r"
    and st: "\<And>(p :: 'ty expression_parser) r. scan_tokens n glt p = Some r
      \<Longrightarrow> scan_tokens (Suc n) glt p = Some r"
  shows "\<And>(p :: 'ty expression_parser) r. parse_parenthetical_expression n glt p = Some r
      \<Longrightarrow> parse_parenthetical_expression (Suc n) glt p = Some r"
    and "\<And>(p :: 'ty expression_parser) r. scan_groups n glt p = Some r
      \<Longrightarrow> scan_groups (Suc n) glt p = Some r"
proof -
  show "parse_parenthetical_expression (Suc n) glt p = Some r"
    if "parse_parenthetical_expression n glt p = Some r" for p :: "'ty expression_parser" and r
    using that ps by (simp del: parse_sub_expression.simps)
  show "scan_groups (Suc n) glt p = Some r"
    if "scan_groups n glt p = Some r" for p :: "'ty expression_parser" and r
    using that st by (simp del: scan_tokens.simps split: if_splits)
qed

lemma more_fuel_call:
  fixes glt :: "string \<Rightarrow> 'ty option"
  assumes ps: "\<And>(p :: 'ty expression_parser) r. parse_sub_expression n glt p = Some r
      \<Longrightarrow> parse_sub_expression (Suc n) glt p = Some r"
  shows "\<And>(p :: 'ty expression_parser) f r. call_parse_func n glt f p = Some r
      \<Longrightarrow> call_parse_func (Suc n) glt f p = Some r"
    and "\<And>(p :: 'ty expression_parser) r. compile_operator n glt p = Some r
      \<Longrightarrow> compile_operator (Suc n) glt p = Some r"
proof -
  have bin: "binary_operation_parser (Suc n) glt p asm = Some r"
    if "binary_operation_parser n glt p asm = Some r" for p :: "'ty expression_parser" and asm r
    using that
    by (auto simp del: parse_sub_expression.simps split: option.splits sum.splits dest!: ps)
  have asg: "assignment_parser (Suc n) glt p = Some r"
    if "assignment_parser n glt p = Some r" for p :: "'ty expression_parser" and r
    using that
    by (auto simp del: parse_sub_expression.simps split: option.splits sum.splits if_splits dest!: ps)
  show call: "call_parse_func (Suc n) glt f p = Some r"
    if "call_parse_func n glt f p = Some r" for p :: "'ty expression_parser" and f r
    using that bin asg
    by (cases f) (simp_all del: binary_operation_parser.simps assignment_parser.simps)
  show "compile_operator (Suc n) glt p = Some r"
    if "compile_operator n glt p = Some r" for p :: "'ty expression_parser" and r
    using that call
    by (auto simp del: call_parse_func.simps split: option.splits if_splits)
qed

lemma more_fuel_Suc:
  fixes glt :: "string \<Rightarrow> 'ty option"
  shows "(\<forall>(p :: 'ty expression_parser) r. parse_sub_expression n glt p = Some r
            \<longrightarrow> parse_sub_expression (Suc n) glt p = Some r)
       \<and> (\<forall>(p :: 'ty expression_parser) r. scan_tokens n glt p = Some r
            \<longrightarrow> scan_tokens (Suc n) glt p = Some r)"
proof (induction n)
  case 0
  show ?case by simp
next
  case (Suc n)
  have ps: "parse_sub_expression (Suc n) glt p = Some r"
    if "parse_sub_expression n glt p = Some r" for p :: "'ty expression_parser" and r
    using that Suc.IH by blast
  have st: "scan_tokens (Suc n) glt p = Some r"
    if "scan_tokens n glt p = Some r" for p :: "'ty expression_parser" and r
    using that Suc.IH by blast
  have paren: "parse_parenthetical_expression (Suc n) glt p = Some r"
    if "parse_parenthetical_expression n glt p = Some r"
    for p :: "'ty expression_parser" and r
    by (rule more_fuel_step(1)) (use that ps st in blast)+
  have groups: "scan_groups (Suc n) glt p = Some r"
    if "scan_groups n glt p = Some r" for p :: "'ty expression_parser" and r
    by (rule more_fuel_step(2)) (use that ps st in blast)+
  have compile: "compile_operator (Suc n) glt p = Some r"
    if "compile_operator n glt p = Some r" for p :: "'ty expression_parser" and r
    by (rule more_fuel_call(2)) (use that ps in blast)+
  have "parse_sub_expression (Suc (Suc n)) glt p = Some r"
    if "parse_sub_expression (Suc n) glt p = Some r" for p :: "'ty expression_parser" and r
    using that paren groups
    by (auto simp del: parse_parenthetical_expression.simps scan_groups.simps
        simp add: parse_sub_expression.simps(2) [of "Suc n"]
        split: if_splits sum.splits)
  moreover have "scan_tokens (Suc (Suc n)) glt p = Some r"
    if h: "scan_tokens (Suc n) glt p = Some r" for p :: "'ty expression_parser" and r
  proof -
    note h' = h [unfolded scan_tokens.simps(2) [of n]]
    note opaque = scan_tokens.simps scan_groups.simps compile_operator.simps
    note body = scan_tokens.simps(2) [of "Suc n"]
    show ?thesis
    proof (cases "start p \<le> token_index p")
      case False
      with h' have "scan_groups n glt (p\<lparr>op_group_index := op_group_index p + 1\<rparr>) = Some r"
        by (simp del: opaque)
      from groups [OF this] False show ?thesis
        by (simp del: opaque add: body)
    next
      case in_range: True
      show ?thesis
      proof (cases "vec_get (tokenv p) (token_index p)")
        case (Inl err)
        with h' in_range show ?thesis
          by (simp del: opaque add: body)
      next
        case (Inr tok)
        show ?thesis
        proof (cases "tok = PAREN_CLOSE")
          case closing: True
          show ?thesis
          proof (cases "paren_matches p (token_index p - expr_start p)")
            case None
            with h' in_range Inr closing show ?thesis
              by (simp del: opaque add: body)
          next
            case (Some m)
            with h' in_range Inr closing
            have "scan_tokens n glt (p\<lparr>token := tok, token_index := m - 1\<rparr>) = Some r"
              by (simp del: opaque)
            from st [OF this] in_range Inr closing Some show ?thesis
              by (simp del: opaque add: body)
          qed
        next
          case other: False
          show ?thesis
          proof (cases "compile_operator n glt (p\<lparr>token := tok\<rparr>)")
            case None
            with h' in_range Inr other show ?thesis
              by (simp del: opaque add: body)
          next
            case (Some res)
            note res' = compile [OF Some]
            show ?thesis
            proof (cases res)
              case (Inl err)
              with h' in_range Inr other Some res' show ?thesis
                by (auto simp del: opaque simp add: body)
            next
              case operand: (Inr node)
              show ?thesis
              proof (cases node)
                case None
                with h' in_range Inr other Some operand
                have "scan_tokens n glt (p\<lparr>token := tok, token_index := token_index p - 1\<rparr>)
                    = Some r"
                  by (simp del: opaque)
                from st [OF this] in_range Inr other res' operand None show ?thesis
                  by (simp del: opaque add: body)
              next
                case (Some operator_node)
                with h' in_range Inr other \<open>compile_operator n glt (p\<lparr>token := tok\<rparr>) = Some res\<close>
                  res' operand show ?thesis
                  by (auto simp del: opaque simp add: body)
              qed
            qed
          qed
        qed
      qed
    qed
  qed
  ultimately show ?case by blast
qed

lemma more_fuel_parse_sub_expression:
  assumes "parse_sub_expression n glt p = Some r"
  shows "parse_sub_expression (n + k) glt p = Some r"
proof (induction k)
  case 0
  from assms show ?case by simp
next
  case (Suc k)
  with more_fuel_Suc [of "n + k" glt] show ?case
    by (simp only: add_Suc_right)
qed

lemma more_fuel_parse_expression:
  assumes "parse_expression n glt tv curr_line s e nsp = Some r"
  shows "parse_expression (n + k) glt tv curr_line s e nsp = Some r"
  using assms
  by (auto simp add: parse_expression_def more_fuel_parse_sub_expression
      simp del: parse_sub_expression.simps split: sum.splits prod.splits if_splits)

text \<open>
  The same for a handler of a binary operator.
\<close>

lemma more_fuel_binary_operation_parser:
  assumes "binary_operation_parser n glt p asm = Some r"
  shows "binary_operation_parser (n + k) glt p asm = Some r"
proof -
  note opaque = parse_sub_expression.simps
  let ?left = "p\<lparr>end_index := token_index p\<rparr>"
  let ?right = "p\<lparr>start := token_index p + 1\<rparr>"
  from assms obtain lv where l: "parse_sub_expression n glt ?left = Some lv"
    by (cases "parse_sub_expression n glt ?left") (simp_all del: opaque)
  note l' = more_fuel_parse_sub_expression [OF l, of k]
  show ?thesis
  proof (cases lv)
    case (Inl err)
    with assms l l' show ?thesis
      by (auto simp del: opaque)
  next
    case (Inr left)
    with assms l obtain rv where r: "parse_sub_expression n glt ?right = Some rv"
      by (cases "parse_sub_expression n glt ?right") (simp_all del: opaque)
    note r' = more_fuel_parse_sub_expression [OF r, of k]
    from assms l l' r r' Inr show ?thesis
      by (auto simp del: opaque)
  qed
qed

section \<open>Indices\<close>

lemma unat_size_t_bound: "unat (w :: size_t) < 2 ^ 64"
  using unsigned_less [of w, where ?'a = nat] by simp

lemma unat_plus_of_nat:
  fixes s :: size_t
  assumes "unat s + n < 2 ^ 64"
  shows "unat (s + of_nat n) = unat s + n"
proof -
  have n: "unat (of_nat n :: size_t) = n"
    using assms by (simp add: unat_of_nat)
  have "unat s + unat (of_nat n :: size_t) < 2 ^ LENGTH(64)"
    using assms n by simp
  then have "unat (s + of_nat n) = unat s + unat (of_nat n :: size_t)"
    by (rule unat_add_lem [THEN iffD1])
  with n show ?thesis
    by simp
qed

lemma of_nat_unat_diff:
  fixes i j :: size_t
  assumes "unat i \<le> unat j"
  shows "j - of_nat (unat j - unat i) = i"
proof -
  have "(of_nat (unat j - unat i) :: size_t) = of_nat (unat j) - of_nat (unat i)"
    using assms by (rule of_nat_diff)
  then show ?thesis
    by simp
qed

lemma index_between_1_and_5:
  fixes j :: nat
  assumes "unat (1 :: size_t) < j" and "j < unat (5 :: size_t)"
  shows "j = 2 \<or> j = 3 \<or> j = 4"
  using assms by auto

lemma index_between_3_and_5:
  fixes j :: nat
  assumes "unat (3 :: size_t) < j" and "j < unat (5 :: size_t)"
  shows "j = 4"
  using assms by simp

section \<open>Parser states\<close>

lemma init_expression_parser_fields:
  "tokenv (init_expression_parser q tv curr_line s e nsp) = tv"
  "line (init_expression_parser q tv curr_line s e nsp) = curr_line"
  "expr_start (init_expression_parser q tv curr_line s e nsp) = s"
  "start (init_expression_parser q tv curr_line s e nsp) = s"
  "end_index (init_expression_parser q tv curr_line s e nsp) = e"
  "op_group_index (init_expression_parser q tv curr_line s e nsp) = 0"
  "ns (init_expression_parser q tv curr_line s e nsp) = nsp"
  by (simp_all add: init_expression_parser_def)

lemma token_update_commute:
  "(q :: 'ty expression_parser)\<lparr>token := t, token_index := j\<rparr> = q\<lparr>token_index := j, token := t\<rparr>"
  "(q :: 'ty expression_parser)\<lparr>token := t, op_group_index := g\<rparr> = q\<lparr>op_group_index := g, token := t\<rparr>"
  by (cases q; simp)+

lemma parse_value_value_at:
  "parse_value glt p = value_at glt (ns p) (line p) (tokenv p) (start p)"
  by (simp add: parse_value_def value_at_def split: sum.split option.split)

lemma operand_token_skipped:
  assumes "operand_token tok"
  shows "skipped 0 tok" and "skipped 1 tok" and "skipped 2 tok"
    and "tok \<noteq> PAREN_OPEN" and "tok \<noteq> PAREN_CLOSE"
  using assms by (simp_all add: operand_token_def skipped_def)

lemma skipped_operators:
  "skipped 0 ''+''" "skipped 0 ''-''" "skipped 0 ''*''" "skipped 0 ''/''" "skipped 0 ''%''"
  "skipped 1 ''*''" "skipped 1 ''/''" "skipped 1 ''%''"
  by (simp_all add: skipped_def operators_def)

lemma operand_token_abc:
  "operand_token ''a''" "operand_token ''b''" "operand_token ''c''"
  by (simp_all add: operand_token_def skipped_def operators_def)

lemma skipped_assignment_group:
  "skipped 0 tok \<longleftrightarrow> tok \<noteq> PAREN_CLOSE \<and> tok \<noteq> ''=''"
  by (auto simp: skipped_def operators_def)

section \<open>The matcher on any range\<close>

text \<open>
  The token the loop compares is the one at \<open>s\<close> whatever \<open>i\<close> is, so the loop has three
  courses. When that token is no parenthesis, nothing is pushed or written. When it is an
  opening parenthesis, every index is pushed and none is popped. When it is a closing
  parenthesis, the first iteration returns.
\<close>

lemma match_parens_loop_plain:
  assumes "vec_get tv s = Inr tok" and "tok \<noteq> PAREN_OPEN" and "tok \<noteq> PAREN_CLOSE"
  shows "match_parens_loop tv s e i open_parens matches = Inr (vec_len open_parens = 0, matches)"
  using assms
proof (induction tv s e i open_parens matches rule: match_parens_loop.induct)
  case (1 tv s e i open_parens matches)
  show ?case
  proof (cases "i < e")
    case True
    with 1 show ?thesis
      by (subst match_parens_loop.simps) simp
  next
    case False
    then show ?thesis
      by (subst match_parens_loop.simps) simp
  qed
qed

lemma match_parens_loop_open:
  assumes "vec_get tv s = Inr PAREN_OPEN"
  shows "match_parens_loop tv s e i open_parens matches
     = Inr (vec_len open_parens = 0 \<and> \<not> i < e, matches)"
  using assms
proof (induction tv s e i open_parens matches rule: match_parens_loop.induct)
  case (1 tv s e i open_parens matches)
  show ?case
  proof (cases "i < e")
    case True
    with 1 show ?thesis
      by (subst match_parens_loop.simps) (simp add: vec_push_val_def vec_len_def)
  next
    case False
    then show ?thesis
      by (subst match_parens_loop.simps) simp
  qed
qed

text \<open>
  Hence the result of \<^verbatim>\<open>match_parens\<close> on any range: the flag says whether the first token
  of a range that is not empty is a parenthesis, and the table is returned as it was given.
\<close>

lemma match_parens_first_token_only:
  "match_parens tv s e matches =
     (if \<not> s < e then Inr (True, matches)
      else if \<not> unat s < length tv then Inl Out_Of_Range_Read
      else Inr (tv ! unat s \<noteq> PAREN_OPEN \<and> tv ! unat s \<noteq> PAREN_CLOSE, matches))"
proof -
  consider (none) "\<not> s < e" | (beyond) "s < e" "\<not> unat s < length tv"
    | (lparen) "s < e" "unat s < length tv" "tv ! unat s = PAREN_OPEN"
    | (rparen) "s < e" "unat s < length tv" "tv ! unat s = PAREN_CLOSE"
    | (other) "s < e" "unat s < length tv" "tv ! unat s \<noteq> PAREN_OPEN" "tv ! unat s \<noteq> PAREN_CLOSE"
    by blast
  then show ?thesis
  proof cases
    case none
    then show ?thesis
      unfolding match_parens_def
      by (subst match_parens_loop.simps) (simp add: vec_len_def vec_new_def)
  next
    case beyond
    then show ?thesis
      unfolding match_parens_def
      by (subst match_parens_loop.simps) (simp add: vec_get_def)
  next
    case lparen
    then have "vec_get tv s = Inr PAREN_OPEN"
      by (simp add: vec_get_def)
    then show ?thesis
      using lparen by (simp add: match_parens_def match_parens_loop_open)
  next
    case rparen
    then show ?thesis
      unfolding match_parens_def
      by (subst match_parens_loop.simps) (simp add: vec_get_def vec_len_def vec_new_def)
  next
    case other
    then have "vec_get tv s = Inr (tv ! unat s)"
      by (simp add: vec_get_def)
    then show ?thesis
      using other by (simp add: match_parens_def match_parens_loop_plain vec_len_def vec_new_def)
  qed
qed

lemma parse_expression_plain:
  assumes "vec_get tv s = Inr tok" and "tok \<noteq> PAREN_OPEN" and "tok \<noteq> PAREN_CLOSE"
  shows "parse_expression n glt tv curr_line s e nsp =
    parse_sub_expression n glt (init_expression_parser uninitialized_parser tv curr_line s e nsp)"
  by (simp add: parse_expression_def match_parens_def match_parens_loop_plain [OF assms]
      vec_len_def vec_new_def)

section \<open>The scan\<close>

text \<open>
  The scan does not depend on the field \<^verbatim>\<open>token\<close> it starts with: each iteration writes the
  field before reading it.
\<close>

lemma scan_tokens_token:
  "scan_tokens n glt (p\<lparr>token := t\<rparr>) = scan_tokens n glt p"
proof (induction n arbitrary: p t)
  case 0
  show ?case by simp
next
  case (Suc n)
  have g: "scan_groups n glt (q\<lparr>token := t\<rparr>) = scan_groups n glt q" for q :: "'a expression_parser"
    using Suc.IH [where p = "q\<lparr>token_index := end_index q - 1\<rparr>" and t = t]
    by (simp add: token_update_commute)
  show ?case
    using g [of "p\<lparr>op_group_index := op_group_index p + 1\<rparr>"]
    by (simp add: token_update_commute del: scan_groups.simps compile_operator.simps
        split: sum.split option.split)
qed

text \<open>
  One iteration at a token that is passed over, and \<open>k\<close> such iterations: \<open>token_index\<close>
  goes down by \<open>k\<close> and \<open>k\<close> units of fuel are used.
\<close>

lemma scan_tokens_step:
  assumes "unat (op_group_index p) < length operators"
    and "unat (token_index p) < length (tokenv p)"
    and "start p \<le> token_index p"
    and "skipped (op_group_index p) (tokenv p ! unat (token_index p))"
  shows "scan_tokens (Suc n) glt p = scan_tokens n glt (p\<lparr>token_index := token_index p - 1\<rparr>)"
  using assms
    scan_tokens_token [where n = n and glt = glt and p = "p\<lparr>token_index := token_index p - 1\<rparr>"]
  by (simp add: vec_get_def skipped_def token_update_commute)

lemma scan_tokens_skip:
  assumes "unat (op_group_index p) < length operators"
    and "0 < k \<Longrightarrow> unat (token_index p) < length (tokenv p)"
    and "unat (start p) + k \<le> Suc (unat (token_index p))"
    and "\<And>m. m < k \<Longrightarrow> skipped (op_group_index p) (tokenv p ! (unat (token_index p) - m))"
  shows "scan_tokens (k + n) glt p = scan_tokens n glt (p\<lparr>token_index := token_index p - of_nat k\<rparr>)"
  using assms
proof (induction k arbitrary: p)
  case 0
  show ?case by simp
next
  case (Suc k)
  let ?q = "p\<lparr>token_index := token_index p - 1\<rparr>"
  have le: "start p \<le> token_index p"
    using Suc.prems(3) by (simp add: word_le_nat_alt)
  have here: "skipped (op_group_index p) (tokenv p ! unat (token_index p))"
    using Suc.prems(4) [of 0] by simp
  have step: "scan_tokens (Suc k + n) glt p = scan_tokens (k + n) glt ?q"
    using scan_tokens_step [OF Suc.prems(1) _ le here, of "k + n" glt] Suc.prems(2) by simp
  have rest: "scan_tokens (k + n) glt ?q
      = scan_tokens n glt (?q\<lparr>token_index := token_index ?q - of_nat k\<rparr>)"
  proof (cases k)
    case 0
    then show ?thesis by simp
  next
    case (Suc k')
    then have nz: "token_index p \<noteq> 0"
      using Suc.prems(3) by (auto simp: unat_eq_0)
    then have pred: "unat (token_index p - 1) = unat (token_index p) - 1"
      by (rule unat_minus_one)
    show ?thesis
    proof (rule Suc.IH)
      show "unat (op_group_index ?q) < length operators"
        using Suc.prems(1) by simp
      show "unat (token_index ?q) < length (tokenv ?q)"
        using Suc.prems(2) pred by simp
      show "unat (start ?q) + k \<le> Suc (unat (token_index ?q))"
        using Suc.prems(3) pred nz by (simp add: unat_gt_0 [symmetric])
      show "skipped (op_group_index ?q) (tokenv ?q ! (unat (token_index ?q) - m))" if "m < k" for m
        using Suc.prems(4) [of "Suc m"] that pred by simp
    qed
  qed
  have last: "?q\<lparr>token_index := token_index ?q - of_nat k\<rparr>
      = p\<lparr>token_index := token_index p - of_nat (Suc k)\<rparr>"
    by (simp add: diff_diff_eq)
  show ?case
    by (rule trans [OF step]) (simp only: rest last)
qed

lemma scan_tokens_down_to:
  fixes p :: "'ty expression_parser" and i j :: size_t
  assumes "unat (op_group_index p) < length operators"
    and "unat (start p) \<le> Suc (unat i)" and "unat i \<le> unat j" and "unat j < length (tokenv p)"
    and "\<And>m. unat i < m \<Longrightarrow> m \<le> unat j \<Longrightarrow> skipped (op_group_index p) (tokenv p ! m)"
  shows "scan_tokens (unat j - unat i + n) glt (p\<lparr>token_index := j\<rparr>)
     = scan_tokens n glt (p\<lparr>token_index := i\<rparr>)"
proof -
  let ?k = "unat j - unat i"
  let ?q = "p\<lparr>token_index := j\<rparr>"
  have "scan_tokens (?k + n) glt ?q
      = scan_tokens n glt (?q\<lparr>token_index := token_index ?q - of_nat ?k\<rparr>)"
  proof (rule scan_tokens_skip)
    show "unat (op_group_index ?q) < length operators"
      using assms(1) by simp
    show "unat (token_index ?q) < length (tokenv ?q)"
      using assms(4) by simp
    show "unat (start ?q) + ?k \<le> Suc (unat (token_index ?q))"
      using assms(2,3) by simp
    show "skipped (op_group_index ?q) (tokenv ?q ! (unat (token_index ?q) - m))" if "m < ?k" for m
      using assms(5) [of "unat j - m"] that by simp
  qed
  then show ?thesis
    using of_nat_unat_diff [OF assms(3)] by simp
qed

text \<open>
  The handlers always build a node when they return, so a null result of
  \<^verbatim>\<open>compile_operator\<close> means that the token is no operator of the group.
\<close>

lemma call_parse_func_not_null:
  "call_parse_func n glt f p \<noteq> Some (Inr None)"
  by (cases f) (simp_all split: option.split sum.split)

lemma parse_sub_expression_single:
  assumes "start p + 1 = end_index p"
  shows "parse_sub_expression (Suc n) glt p = Some (parse_value glt p)"
  using assms by simp

lemma parse_sub_expression_multi:
  assumes "start p + 1 \<noteq> end_index p" and "unat (start p) < length (tokenv p)"
    and "tokenv p ! unat (start p) \<noteq> PAREN_OPEN"
  shows "parse_sub_expression (Suc n) glt p = scan_groups n glt p"
  using assms by (simp add: vec_get_def del: scan_groups.simps)

lemma parse_expression_multi:
  assumes "unat s < length tv" and "tv ! unat s \<noteq> PAREN_OPEN" and "tv ! unat s \<noteq> PAREN_CLOSE"
    and "s + 1 \<noteq> e"
  shows "parse_expression (Suc n) glt tv curr_line s e nsp =
    scan_groups n glt (init_expression_parser uninitialized_parser tv curr_line s e nsp)"
proof -
  let ?p = "init_expression_parser uninitialized_parser tv curr_line s e nsp"
  have tok: "vec_get tv s = Inr (tv ! unat s)"
    using assms(1) by (simp add: vec_get_def)
  have "parse_sub_expression (Suc n) glt ?p = scan_groups n glt ?p"
    by (rule parse_sub_expression_multi) (use assms in \<open>simp_all add: init_expression_parser_def\<close>)
  then show ?thesis
    by (simp only: parse_expression_plain [OF tok assms(2,3)])
qed

text \<open>
  The three ways the scan of one group ends. It finds an operator of the group at index \<open>i\<close>
  when the tokens to the right of \<open>i\<close> are passed over. It goes on to the next group when all
  tokens of the range are passed over and the range starts after index 0. When the range
  starts at index 0, \<open>token_index\<close> wraps to \<open>2\<^sup>6\<^sup>4 - 1\<close>, the test of the loop holds again,
  and the read of the token vector is out of range.
\<close>

lemma scan_groups_found:
  fixes p :: "'ty expression_parser" and i :: size_t
  assumes "unat (op_group_index p) < length operators"
    and "unat (start p) \<le> unat i" and "unat i < unat (end_index p)"
    and "unat (end_index p) \<le> length (tokenv p)"
    and "\<And>m. unat i < m \<Longrightarrow> m < unat (end_index p) \<Longrightarrow> skipped (op_group_index p) (tokenv p ! m)"
    and "tokenv p ! unat i \<noteq> PAREN_CLOSE"
    and "find_operator (tokenv p ! unat i) (operators ! unat (op_group_index p)) = Some f"
  shows "scan_groups (unat (end_index p) - Suc (unat i) + Suc n) glt p
     = call_parse_func n glt f (p\<lparr>token_index := i, token := tokenv p ! unat i\<rparr>)"
proof -
  let ?e = "end_index p"
  have e0: "?e \<noteq> 0"
    using assms(3) by (auto simp: unat_eq_0)
  then have pred: "unat (?e - 1) = unat ?e - 1"
    by (rule unat_minus_one)
  have g3: "op_group_index p < COMMON_PRECEDENCE_GROUPS"
    using assms(1) by (simp add: operators_def COMMON_PRECEDENCE_GROUPS_def word_less_nat_alt)
  have fuel: "unat ?e - Suc (unat i) = unat (?e - 1) - unat i"
    using pred by simp
  have enter: "scan_groups (unat ?e - Suc (unat i) + Suc n) glt p
      = scan_tokens (unat (?e - 1) - unat i + Suc n) glt (p\<lparr>token_index := ?e - 1\<rparr>)"
    using g3 by (simp add: fuel)
  have down: "scan_tokens (unat (?e - 1) - unat i + Suc n) glt (p\<lparr>token_index := ?e - 1\<rparr>)
      = scan_tokens (Suc n) glt (p\<lparr>token_index := i\<rparr>)"
  proof (rule scan_tokens_down_to [OF assms(1)])
    show "unat (start p) \<le> Suc (unat i)"
      using assms(2) by simp
    show "unat i \<le> unat (?e - 1)"
      using assms(3) pred by simp
    show "unat (?e - 1) < length (tokenv p)"
      using assms(3,4) pred by simp
    show "skipped (op_group_index p) (tokenv p ! m)" if "unat i < m" and "m \<le> unat (?e - 1)" for m
      using assms(5) [of m] that pred assms(3) by simp
  qed
  have here: "scan_tokens (Suc n) glt (p\<lparr>token_index := i\<rparr>)
      = call_parse_func n glt f (p\<lparr>token_index := i, token := tokenv p ! unat i\<rparr>)"
    using assms(1,2,3,4,6,7)
      call_parse_func_not_null [of n glt f "p\<lparr>token_index := i, token := tokenv p ! unat i\<rparr>"]
    by (simp add: vec_get_def word_le_nat_alt token_update_commute
        del: call_parse_func.simps split: option.split sum.split)
  show ?thesis
    by (simp only: enter down here)
qed

lemma scan_groups_exhaust:
  fixes p :: "'ty expression_parser"
  assumes "unat (op_group_index p) < length operators"
    and "0 < unat (start p)" and "unat (start p) < unat (end_index p)"
    and "unat (end_index p) \<le> length (tokenv p)"
    and "\<And>m. unat (start p) \<le> m \<Longrightarrow> m < unat (end_index p)
          \<Longrightarrow> skipped (op_group_index p) (tokenv p ! m)"
  shows "scan_groups (unat (end_index p) - unat (start p) + Suc n) glt p
     = scan_groups n glt (p\<lparr>op_group_index := op_group_index p + 1\<rparr>)"
proof -
  let ?e = "end_index p" and ?s = "start p"
  have e0: "?e \<noteq> 0"
    using assms(3) by (auto simp: unat_eq_0)
  then have pred: "unat (?e - 1) = unat ?e - 1"
    by (rule unat_minus_one)
  have s0: "?s \<noteq> 0"
    using assms(2) by (auto simp: unat_eq_0)
  then have preds: "unat (?s - 1) = unat ?s - 1"
    by (rule unat_minus_one)
  have g3: "op_group_index p < COMMON_PRECEDENCE_GROUPS"
    using assms(1) by (simp add: operators_def COMMON_PRECEDENCE_GROUPS_def word_less_nat_alt)
  have fuel: "unat ?e - unat ?s = unat (?e - 1) - unat (?s - 1)"
    using pred preds assms(2,3) by simp
  have enter: "scan_groups (unat ?e - unat ?s + Suc n) glt p
      = scan_tokens (unat (?e - 1) - unat (?s - 1) + Suc n) glt (p\<lparr>token_index := ?e - 1\<rparr>)"
    using g3 by (simp add: fuel)
  have down: "scan_tokens (unat (?e - 1) - unat (?s - 1) + Suc n) glt (p\<lparr>token_index := ?e - 1\<rparr>)
      = scan_tokens (Suc n) glt (p\<lparr>token_index := ?s - 1\<rparr>)"
  proof (rule scan_tokens_down_to [OF assms(1)])
    show "unat ?s \<le> Suc (unat (?s - 1))"
      using preds by simp
    show "unat (?s - 1) \<le> unat (?e - 1)"
      using pred preds assms(3) by simp
    show "unat (?e - 1) < length (tokenv p)"
      using assms(3,4) pred by simp
    show "skipped (op_group_index p) (tokenv p ! m)"
      if "unat (?s - 1) < m" and "m \<le> unat (?e - 1)" for m
      using assms(5) [of m] that pred preds assms(3) by simp
  qed
  have below: "\<not> ?s \<le> ?s - 1"
    using preds assms(2) by (simp add: word_le_nat_alt)
  have here: "scan_tokens (Suc n) glt (p\<lparr>token_index := ?s - 1\<rparr>)
      = scan_groups n glt (p\<lparr>op_group_index := op_group_index p + 1\<rparr>)"
    using below by simp
  show ?thesis
    by (simp only: enter down here)
qed

lemma scan_groups_wrap:
  fixes p :: "'ty expression_parser"
  assumes "unat (op_group_index p) < length operators"
    and "start p = 0" and "0 < unat (end_index p)"
    and "unat (end_index p) \<le> length (tokenv p)"
    and "length (tokenv p) < 2 ^ 64"
    and "\<And>m. m < unat (end_index p) \<Longrightarrow> skipped (op_group_index p) (tokenv p ! m)"
  shows "scan_groups (unat (end_index p) + Suc n) glt p = Some (Inl Out_Of_Range_Read)"
proof -
  let ?e = "end_index p"
  let ?q = "p\<lparr>token_index := ?e - 1\<rparr>"
  have e0: "?e \<noteq> 0"
    using assms(3) by (auto simp: unat_eq_0)
  then have pred: "unat (?e - 1) = unat ?e - 1"
    by (rule unat_minus_one)
  have g3: "op_group_index p < COMMON_PRECEDENCE_GROUPS"
    using assms(1) by (simp add: operators_def COMMON_PRECEDENCE_GROUPS_def word_less_nat_alt)
  have enter: "scan_groups (unat ?e + Suc n) glt p = scan_tokens (unat ?e + Suc n) glt ?q"
    using g3 by simp
  have down: "scan_tokens (unat ?e + Suc n) glt ?q
      = scan_tokens (Suc n) glt (?q\<lparr>token_index := token_index ?q - of_nat (unat ?e)\<rparr>)"
  proof (rule scan_tokens_skip)
    show "unat (op_group_index ?q) < length operators"
      using assms(1) by simp
    show "unat (token_index ?q) < length (tokenv ?q)"
      using assms(3,4) pred by simp
    show "unat (start ?q) + unat ?e \<le> Suc (unat (token_index ?q))"
      using assms(2,3) pred by simp
    show "skipped (op_group_index ?q) (tokenv ?q ! (unat (token_index ?q) - m))"
      if "m < unat ?e" for m
      using assms(6) [of "unat ?e - 1 - m"] that pred by simp
  qed
  have wrapped: "?q\<lparr>token_index := token_index ?q - of_nat (unat ?e)\<rparr> = p\<lparr>token_index := - 1\<rparr>"
    by simp
  have here: "scan_tokens (Suc n) glt (p\<lparr>token_index := - 1\<rparr>) = Some (Inl Out_Of_Range_Read)"
    using assms(2,5) by (simp add: vec_get_def unat_max_size_t)
  show ?thesis
    by (simp only: enter down wrapped here)
qed

text \<open>
  A range of three tokens, operand, operator of the current group, operand.
\<close>

lemma binary_operation_parser_values:
  assumes "start q + 1 = token_index q" and "token_index q + 1 + 1 = end_index q"
    and "value_at glt (ns q) (line q) (tokenv q) (start q) = Inr (Some A)"
    and "value_at glt (ns q) (line q) (tokenv q) (token_index q + 1) = Inr (Some B)"
  shows "binary_operation_parser (Suc n) glt q asm
     = Some (Inr (Some (binary_operation_new (expr_type B) (Some A) (Some B) asm)))"
  using assms by (simp add: parse_value_value_at)

lemma three_token_node:
  fixes p :: "'ty expression_parser"
  assumes "unat (op_group_index p) < length operators"
    and "unat (start p) + 3 = unat (end_index p)"
    and "unat (end_index p) \<le> length (tokenv p)"
    and "tokenv p ! Suc (unat (start p)) \<noteq> PAREN_CLOSE"
    and "find_operator (tokenv p ! Suc (unat (start p))) (operators ! unat (op_group_index p)) = Some f"
    and "f \<noteq> assignment_parser_ptr"
    and "skipped (op_group_index p) (tokenv p ! Suc (Suc (unat (start p))))"
    and "value_at glt (ns p) (line p) (tokenv p) (start p) = Inr (Some A)"
    and "value_at glt (ns p) (line p) (tokenv p) (start p + 2) = Inr (Some B)"
  shows "scan_groups (3 + n) glt p
     = Some (Inr (Some (binary_operation_new (expr_type B) (Some A) (Some B)
         (assembly_generator_of f))))"
proof -
  let ?i = "start p + 1"
  let ?q = "p\<lparr>token_index := ?i, token := tokenv p ! unat ?i\<rparr>"
  have lt: "unat (start p) + 3 < 2 ^ 64"
    using assms(2) unat_size_t_bound [of "end_index p"] by simp
  have u1: "unat ?i = Suc (unat (start p))"
    using unat_plus_of_nat [of "start p" 1] lt by simp
  have e: "end_index p = start p + 3"
    using unat_plus_of_nat [of "start p" 3] lt assms(2) by (simp add: word_unat_eq_iff)
  have found: "scan_groups (unat (end_index p) - Suc (unat ?i) + Suc (Suc n)) glt p
      = call_parse_func (Suc n) glt f ?q"
  proof (rule scan_groups_found [OF assms(1)])
    show "unat (start p) \<le> unat ?i"
      using u1 by simp
    show "unat ?i < unat (end_index p)"
      using u1 assms(2) by simp
    show "unat (end_index p) \<le> length (tokenv p)"
      by (rule assms(3))
    show "skipped (op_group_index p) (tokenv p ! m)" if "unat ?i < m" and "m < unat (end_index p)" for m
    proof -
      have "m = Suc (Suc (unat (start p)))"
        using that u1 assms(2) by simp
      then show ?thesis
        using assms(7) by simp
    qed
    show "tokenv p ! unat ?i \<noteq> PAREN_CLOSE"
      using assms(4) u1 by simp
    show "find_operator (tokenv p ! unat ?i) (operators ! unat (op_group_index p)) = Some f"
      using assms(5) u1 by simp
  qed
  have fuel: "unat (end_index p) - Suc (unat ?i) + Suc (Suc n) = 3 + n"
    using u1 assms(2) by simp
  have call: "call_parse_func (Suc n) glt f ?q
      = binary_operation_parser (Suc n) glt ?q (assembly_generator_of f)"
    using assms(6) by (cases f) simp_all
  have node: "binary_operation_parser (Suc n) glt ?q (assembly_generator_of f)
      = Some (Inr (Some (binary_operation_new (expr_type B) (Some A) (Some B)
         (assembly_generator_of f))))"
  proof (rule binary_operation_parser_values)
    show "start ?q + 1 = token_index ?q"
      by simp
    show "token_index ?q + 1 + 1 = end_index ?q"
      using e by simp
    show "value_at glt (ns ?q) (line ?q) (tokenv ?q) (start ?q) = Inr (Some A)"
      using assms(8) by simp
    show "value_at glt (ns ?q) (line ?q) (tokenv ?q) (token_index ?q + 1) = Inr (Some B)"
      using assms(9) by (simp add: add.commute)
  qed
  show ?thesis
    using found by (simp only: fuel call node)
qed

section \<open>C1: what the matcher records\<close>

text \<open>
  C1. The matcher is to classify each position by the token at the scan index and to record,
  for each closing parenthesis, its own opening parenthesis. The code compares the token at
  \<^verbatim>\<open>start\<close> at every position. On \<open>a + b )\<close> it sees four times \<open>a\<close>, reports the
  parentheses as matched and records nothing; on the balanced \<open>( a )\<close> it sees three opening
  parentheses and reports a mismatch.
\<close>

theorem match_parens_reads_first_token:
  "match_parens [''a'', ''+'', ''b'', '')''] 0 4 (\<lambda>k. None) = Inr (True, \<lambda>k. None)
   \<and> match_parens [''('', ''a'', '')''] 0 3 (\<lambda>k. None) = Inr (False, \<lambda>k. None)"
  by (simp add: eval_matcher vec_get_def word_less_nat_alt)

section \<open>C2: parenthesized ranges\<close>

text \<open>
  For a range of several tokens that starts with an opening parenthesis, the token that
  decides whether the pair is stripped is the one at index \<open>end\<close>, behind the range; the
  last token of the range, at \<open>end - 1\<close>, is not looked at.
\<close>

lemma paren_test_reads_index_end:
  assumes "start p + 1 \<noteq> end_index p" and "vec_get (tokenv p) (start p) = Inr PAREN_OPEN"
    and "vec_get (tokenv p) (end_index p) = Inr tok"
  shows "parse_sub_expression (Suc n) glt p =
    (if tok = PAREN_CLOSE then
       parse_sub_expression n glt (p\<lparr>start := start p + 1, end_index := end_index p - 1\<rparr>)
     else scan_groups n glt p)"
  using assms by (simp del: scan_groups.simps)

text \<open>
  C2. A range whose first token is an opening parenthesis and whose last token, at index
  \<open>end - 1\<close>, is a closing one is to be parsed as its interior. The code tests the token at
  index \<open>end\<close>. For \<open>( a )\<close> followed by \<open>;\<close> the pair is not stripped, the scan finds no
  operator and the result is the null pointer, while the interior alone parses to the
  variable \<open>a\<close>.
\<close>

theorem paren_strip_tests_token_after_range:
  "parse_sub_expression (20 + n) literal_type_int parser_paren_a = Some (Inr None)
   \<and> parse_sub_expression (20 + n) literal_type_int (parser_paren_a\<lparr>start := 2, end_index := 3\<rparr>)
       = Some (Inr (Some (var_node_new ''int'' ''a'')))"
  by (intro conjI more_fuel_parse_sub_expression) (simp_all add: eval_parser parser_paren_a_def)

section \<open>C3: the operands of a binary operator\<close>

text \<open>
  In every state, a handler of the table other than the assignment parses the range from
  \<open>start\<close> to \<open>token_index\<close> as the left operand and the range from \<open>token_index + 1\<close> to
  \<open>end\<close> as the right operand, and the node takes the type of the right operand. Both
  operand parsers are copies of the state: they have its group.
\<close>

lemma operand_parsers_are_copies:
  fixes p :: "'ty expression_parser"
  assumes "f \<noteq> assignment_parser_ptr"
    and "left_parser = p\<lparr>end_index := token_index p\<rparr>"
    and "right_parser = p\<lparr>start := token_index p + 1\<rparr>"
  shows "call_parse_func n glt f p =
      (case parse_sub_expression n glt left_parser of
         None \<Rightarrow> None
       | Some (Inl err) \<Rightarrow> Some (Inl err)
       | Some (Inr left) \<Rightarrow>
           (case parse_sub_expression n glt right_parser of
              None \<Rightarrow> None
            | Some (Inl err) \<Rightarrow> Some (Inl err)
            | Some (Inr None) \<Rightarrow> Some (Inl Null_Dereference)
            | Some (Inr (Some right)) \<Rightarrow>
                Some (Inr (Some (binary_operation_new (expr_type right) left (Some right)
                  (assembly_generator_of f))))))"
    and "start left_parser = start p" and "end_index left_parser = token_index p"
    and "start right_parser = token_index p + 1" and "end_index right_parser = end_index p"
    and "op_group_index left_parser = op_group_index p"
    and "op_group_index right_parser = op_group_index p"
  using assms by (cases f; simp cong: option.case_cong sum.case_cong)+

text \<open>
  The scan of \<open>a * ( b + c )\<close> from the lowest group: the first two groups pass over the
  parenthesized operand and find nothing, the third finds \<open>*\<close> and calls \<^verbatim>\<open>mul_parser\<close>.
\<close>

lemma scan_finds_star:
  "parse_sub_expression (11 + n) literal_type_int parser_product_of_sum
     = binary_operation_parser n literal_type_int parser_star_found mul_assembly"
proof -
  have fuel: "11 + n = Suc (Suc (Suc (Suc (Suc (Suc (Suc (Suc (Suc (Suc (Suc n))))))))))"
    by simp
  have node: "binary_operation_parser n literal_type_int q mul_assembly \<noteq> Some (Inr None)"
    for q :: "string expression_parser"
    using call_parse_func_not_null [of n literal_type_int mul_parser_ptr q]
    by (simp del: binary_operation_parser.simps)
  show ?thesis
    unfolding fuel
    by (simp add: parser_product_of_sum_def parser_star_found_def vec_get_def operators_def
        COMMON_PRECEDENCE_GROUPS_def word_le_nat_alt word_less_nat_alt node
        del: binary_operation_parser.simps split: option.split sum.split)
qed

text \<open>
  From the entry point the product of \<open>a\<close> and a parenthesized sum is not parsed at all: the
  matcher passes the range on its first token, and the scan reads the match of the closing
  parenthesis through the pointer that was never set.
\<close>

lemma product_of_sum_from_entry_point:
  "parse_expression (20 + n) literal_type_int
     [''('', ''a'', ''*'', ''('', ''b'', ''+'', ''c'', '')'', '')''] 7 1 8 namespace_abcx
     = Some (Inl Indeterminate_Read)"
  by (rule more_fuel_parse_expression) (simp add: eval_parser eval_matcher)

text \<open>
  C3. Both operand parses are to start from the lowest group again. They go on from the
  group in which the operator was found. In \<open>( a * ( b + c ) )\<close> the scan of the interior
  finds \<open>*\<close> in the third group; the right operand \<open>( b + c )\<close> is stripped and \<open>b + c\<close> is
  scanned in the third group only, where \<open>+\<close> is no operator: the operand is the null
  pointer, and reading its type is a null dereference. Parsed from the lowest group again,
  the operands of the same \<open>*\<close> give the product of \<open>a\<close> and the sum.
\<close>

theorem operands_continue_from_found_group:
  "parse_sub_expression (20 + n) literal_type_int parser_product_of_sum
     = Some (Inl Null_Dereference)
   \<and> binary_operation_parser (20 + n) literal_type_int parser_star_found mul_assembly
     = Some (Inl Null_Dereference)
   \<and> parse_sub_expression (20 + n) literal_type_int (parser_star_found\<lparr>start := 2 + 1\<rparr>)
     = Some (Inr None)
   \<and> parse_sub_expression (20 + n) literal_type_int
       (parser_star_found\<lparr>start := 2 + 1, op_group_index := 0\<rparr>)
     = Some (Inr (Some (binary_operation_new ''int''
         (Some (var_node_new ''int'' ''b'')) (Some (var_node_new ''int'' ''c'')) add_assembly)))
   \<and> binary_operation_parser_restart (20 + n) literal_type_int parser_star_found mul_assembly
     = Some (Inr (Some (binary_operation_new ''int''
         (Some (var_node_new ''int'' ''a''))
         (Some (binary_operation_new ''int''
           (Some (var_node_new ''int'' ''b'')) (Some (var_node_new ''int'' ''c'')) add_assembly))
         mul_assembly)))"
  unfolding binary_operation_parser_restart_def
  by (intro conjI more_fuel_parse_sub_expression more_fuel_binary_operation_parser)
    (simp_all add: eval_parser parser_product_of_sum_def parser_star_found_def)

section \<open>C4: ranges without an operator\<close>

text \<open>
  A range of several operand tokens that starts after index 0: the three groups are scanned
  in turn, none has an operator, and the result is the null pointer.
\<close>

lemma operator_free_range_null:
  fixes tv :: vec and s e :: size_t
  assumes "0 < unat s" and "unat s < unat e" and "s + 1 \<noteq> e" and "unat e \<le> length tv"
    and "\<And>m. unat s \<le> m \<Longrightarrow> m < unat e \<Longrightarrow> operand_token (tv ! m)"
  shows "parse_expression (Suc (3 * Suc (unat e - unat s) + n)) glt tv curr_line s e nsp
     = Some (Inr None)"
proof -
  let ?p0 = "init_expression_parser uninitialized_parser tv curr_line s e nsp"
  let ?L = "unat e - unat s"
  note fields = init_expression_parser_fields
  have first: "operand_token (tv ! unat s)"
    using assms(2) by (simp add: assms(5))
  have enter: "parse_expression (Suc k) glt tv curr_line s e nsp = scan_groups k glt ?p0" for k
    by (rule parse_expression_multi [OF _ _ _ assms(3)])
      (use assms(2,4) first in \<open>simp_all add: operand_token_skipped\<close>)
  have ex: "scan_groups (?L + Suc k) glt (?p0\<lparr>op_group_index := g\<rparr>)
      = scan_groups k glt (?p0\<lparr>op_group_index := g + 1\<rparr>)"
    if "g = 0 \<or> g = 1 \<or> g = 2" for g :: size_t and k
  proof -
    let ?p = "?p0\<lparr>op_group_index := g\<rparr>"
    have "scan_groups (unat (end_index ?p) - unat (start ?p) + Suc k) glt ?p
        = scan_groups k glt (?p\<lparr>op_group_index := op_group_index ?p + 1\<rparr>)"
    proof (rule scan_groups_exhaust)
      show "unat (op_group_index ?p) < length operators"
        using that by (auto simp: operators_def)
      show "0 < unat (start ?p)"
        using assms(1) by (simp add: fields)
      show "unat (start ?p) < unat (end_index ?p)"
        using assms(2) by (simp add: fields)
      show "unat (end_index ?p) \<le> length (tokenv ?p)"
        using assms(4) by (simp add: fields)
      show "skipped (op_group_index ?p) (tokenv ?p ! m)"
        if "unat (start ?p) \<le> m" and "m < unat (end_index ?p)" for m
        using assms(5) [of m] that \<open>g = 0 \<or> g = 1 \<or> g = 2\<close>
        by (auto simp: fields operand_token_skipped)
    qed
    then show ?thesis
      by (simp add: fields del: scan_groups.simps)
  qed
  have p0: "?p0\<lparr>op_group_index := 0\<rparr> = ?p0"
    by (simp add: init_expression_parser_def)
  have fuel: "3 * Suc ?L + n = ?L + Suc (?L + Suc (?L + Suc n))"
    by simp
  have last: "scan_groups n glt (?p0\<lparr>op_group_index := 3\<rparr>) = Some (Inr None)"
    by (simp add: COMMON_PRECEDENCE_GROUPS_def)
  have "scan_groups (?L + Suc (?L + Suc (?L + Suc n))) glt ?p0 = Some (Inr None)"
    using ex [of 0 "?L + Suc (?L + Suc n)"] ex [of 1 "?L + Suc n"] ex [of 2 n] last
    by (simp add: p0 del: scan_groups.simps)
  then have "parse_expression (Suc (?L + Suc (?L + Suc (?L + Suc n)))) glt tv curr_line s e nsp
      = Some (Inr None)"
    by (simp only: enter)
  then show ?thesis
    by (simp only: fuel)
qed

text \<open>
  The lemma at \<open>k a b\<close>, the range starting at index 1.
\<close>

lemma operator_free_range_null_instance:
  "parse_expression 10 literal_type_int [''k'', ''a'', ''b''] 7 1 3 namespace_abcx
     = Some (Inr None)"
proof -
  have tokens: "operand_token ([''k'', ''a'', ''b''] ! m)"
    if "unat (1 :: size_t) \<le> m" and "m < unat (3 :: size_t)" for m
  proof -
    have "m = 1 \<or> m = 2"
      using that by auto
    then show ?thesis
      using operand_token_abc by auto
  qed
  have "parse_expression (Suc (3 * Suc (unat (3 :: size_t) - unat (1 :: size_t)) + 0))
      literal_type_int [''k'', ''a'', ''b''] 7 1 3 namespace_abcx = Some (Inr None)"
    by (rule operator_free_range_null) (use tokens in simp_all)
  then show ?thesis
    by simp
qed

text \<open>
  C4. A range of several tokens that is not parenthesized and has no operator is to fail
  with a malformed-expression error. The code leaves the loops and returns the null pointer
  (at the comment \<^verbatim>\<open>// figure out compiler error\<close>): for \<open>a b\<close> at indices 1 and 2 the
  result is the null pointer, and no error is raised.
\<close>

theorem null_for_missing_operator:
  "parse_expression (20 + n) literal_type_int [''k'', ''a'', ''b''] 7 1 3 namespace_abcx
     = Some (Inr None)"
  by (intro conjI more_fuel_parse_expression) (simp_all add: eval_parser eval_matcher)

section \<open>C5: mismatched parentheses\<close>

text \<open>
  Every range that starts with a parenthesis fails with the mismatched-parentheses error,
  balanced or not.
\<close>

lemma mismatch_for_leading_parenthesis:
  assumes "s < e" and "unat s < length tv"
    and "tv ! unat s = PAREN_OPEN \<or> tv ! unat s = PAREN_CLOSE"
  shows "parse_expression n glt tv curr_line s e nsp
     = Some (Inl (Compiler_Error ''Mismatched Parentheses'' curr_line))"
  using assms by (auto simp: parse_expression_def match_parens_first_token_only)

text \<open>
  C5. \<open>a + b )\<close> is to fail with the mismatched-parentheses error, and a balanced range is
  not. The matcher looks at the first token only: \<open>a + b )\<close> passes it, and the scan then
  reads a match through the pointer that was never set; the balanced \<open>( a + b )\<close> fails
  with the mismatched-parentheses error.
\<close>

theorem mismatch_decided_by_first_token:
  "parse_expression (20 + n) literal_type_int [''k'', ''a'', ''+'', ''b'', '')''] 7 1 5 namespace_abcx
     = Some (Inl Indeterminate_Read)
   \<and> parse_expression (20 + n) literal_type_int [''k'', ''('', ''a'', ''+'', ''b'', '')''] 7 1 6
       namespace_abcx
     = Some (Inl (Compiler_Error ''Mismatched Parentheses'' 7))"
  by (intro conjI more_fuel_parse_expression) (simp_all add: eval_parser eval_matcher)

section \<open>C6 and C7: associativity and precedence\<close>

text \<open>
  For operand tokens \<open>a\<close>, \<open>b\<close>, \<open>c\<close> that resolve to the leaves \<open>A\<close>, \<open>B\<close>, \<open>C\<close>, and a
  range that starts after index 0: \<open>a - b - c\<close> parses to the difference of \<open>a - b\<close> and
  \<open>c\<close>, with 13 units of fuel or more.
\<close>

lemma subtraction_chain_left_associative:
  fixes tv pre post :: vec and s e :: size_t
  assumes "pre \<noteq> []" and "unat s = length pre" and "unat e = length pre + 5"
    and "operand_token a" and "operand_token b" and "operand_token c"
    and "value_at glt nsp curr_line tv s = Inr (Some A)"
    and "value_at glt nsp curr_line tv (s + 2) = Inr (Some B)"
    and "value_at glt nsp curr_line tv (s + 4) = Inr (Some C)"
    and "tv = pre @ [a, ''-'', b, ''-'', c] @ post"
  shows "parse_expression (13 + n) glt tv curr_line s e nsp
     = Some (Inr (Some (binary_operation_new (expr_type C)
         (Some (binary_operation_new (expr_type B) (Some A) (Some B) sub_assembly))
         (Some C) sub_assembly)))"
proof -
  let ?mid = "[a, ''-'', b, ''-'', c]"
  let ?tv = "tv"
  let ?p0 = "init_expression_parser uninitialized_parser ?tv curr_line s e nsp"
  let ?p1 = "?p0\<lparr>op_group_index := 1\<rparr>"
  let ?p2 = "?p1\<lparr>token_index := s + 3, token := ''-''\<rparr>"
  have nth: "?tv ! (length pre + j) = ?mid ! j" if "j < 5" for j
  proof -
    have "?tv ! (length pre + j) = (?mid @ post) ! j"
      unfolding assms(10) by (rule nth_append_length_plus)
    also have "\<dots> = ?mid ! j"
      using that by (subst nth_append) simp
    finally show ?thesis .
  qed
  have tok: "?tv ! length pre = a" "?tv ! Suc (length pre) = ''-''"
    "?tv ! Suc (Suc (length pre)) = b" "?tv ! (length pre + 3) = ''-''"
    "?tv ! (length pre + 4) = c"
    using nth [of 0] nth [of 1] nth [of 2] nth [of 3] nth [of 4] by simp_all
  have len: "length pre + 5 \<le> length tv"
    unfolding assms(10) by simp
  have lt: "unat s + 5 < 2 ^ 64"
    using assms(2,3) unat_size_t_bound [of e] by simp
  have u: "unat (s + 1) = length pre + 1" "unat (s + 2) = length pre + 2"
    "unat (s + 3) = length pre + 3" "unat (s + 4) = length pre + 4"
    using unat_plus_of_nat [of s 1] unat_plus_of_nat [of s 2] unat_plus_of_nat [of s 3]
      unat_plus_of_nat [of s 4] lt assms(2) by simp_all
  have e: "e = s + 5"
    using unat_plus_of_nat [of s 5] lt assms(2,3) by (simp add: word_unat_eq_iff)
  note fields = init_expression_parser_fields
  have skip0: "skipped 0 (?tv ! m)" if "length pre \<le> m" and "m < length pre + 5" for m
  proof -
    define j where "j = m - length pre"
    have m: "m = length pre + j" and j: "j < 5"
      using that by (simp_all add: j_def)
    have "list_all (skipped 0) ?mid"
      using assms(4,5,6) by (simp add: operand_token_skipped skipped_operators)
    then have "skipped 0 (?mid ! j)"
      using j by (simp add: list_all_length)
    then show ?thesis
      by (simp only: m nth [OF j])
  qed
  have enter: "parse_expression (Suc (12 + n)) glt ?tv curr_line s e nsp
      = scan_groups (12 + n) glt ?p0"
    by (rule parse_expression_multi)
      (use assms(2,4) tok e len in \<open>simp_all add: operand_token_skipped\<close>)
  have exhaust: "scan_groups (unat (end_index ?p0) - unat (start ?p0) + Suc (6 + n)) glt ?p0
      = scan_groups (6 + n) glt (?p0\<lparr>op_group_index := op_group_index ?p0 + 1\<rparr>)"
  proof (rule scan_groups_exhaust)
    show "unat (op_group_index ?p0) < length operators"
      by (simp add: fields operators_def)
    show "0 < unat (start ?p0)"
      using assms(1,2) by (simp add: fields)
    show "unat (start ?p0) < unat (end_index ?p0)"
      using assms(2,3) by (simp add: fields)
    show "unat (end_index ?p0) \<le> length (tokenv ?p0)"
      using assms(3) len by (simp add: fields)
    show "skipped (op_group_index ?p0) (tokenv ?p0 ! m)"
      if "unat (start ?p0) \<le> m" and "m < unat (end_index ?p0)" for m
      using skip0 [of m] that assms(2,3) by (simp add: fields)
  qed
  have fuel0: "unat (end_index ?p0) - unat (start ?p0) + Suc (6 + n) = 12 + n"
    using assms(2,3) by (simp add: fields)
  have p1: "?p0\<lparr>op_group_index := op_group_index ?p0 + 1\<rparr> = ?p1"
    by (simp add: fields)
  have found: "scan_groups (unat (end_index ?p1) - Suc (unat (s + 3)) + Suc (4 + n)) glt ?p1
      = call_parse_func (4 + n) glt sub_parser_ptr
          (?p1\<lparr>token_index := s + 3, token := tokenv ?p1 ! unat (s + 3)\<rparr>)"
  proof (rule scan_groups_found)
    show "unat (op_group_index ?p1) < length operators"
      by (simp add: operators_def)
    show "unat (start ?p1) \<le> unat (s + 3)"
      using u assms(2) by (simp add: fields)
    show "unat (s + 3) < unat (end_index ?p1)"
      using u assms(3) by (simp add: fields)
    show "unat (end_index ?p1) \<le> length (tokenv ?p1)"
      using assms(3) len by (simp add: fields)
    show "skipped (op_group_index ?p1) (tokenv ?p1 ! m)"
      if "unat (s + 3) < m" and "m < unat (end_index ?p1)" for m
    proof -
      have "m = length pre + 4"
        using that u assms(3) by (simp add: fields)
      then show ?thesis
        using tok assms(6) by (simp add: fields operand_token_skipped)
    qed
    show "tokenv ?p1 ! unat (s + 3) \<noteq> PAREN_CLOSE"
      using tok u by (simp add: fields)
    show "find_operator (tokenv ?p1 ! unat (s + 3)) (operators ! unat (op_group_index ?p1))
        = Some sub_parser_ptr"
      using tok u by (simp add: fields operators_def)
  qed
  have fuel1: "unat (end_index ?p1) - Suc (unat (s + 3)) + Suc (4 + n) = 6 + n"
    using u assms(3) by (simp add: fields)
  have p2: "?p1\<lparr>token_index := s + 3, token := tokenv ?p1 ! unat (s + 3)\<rparr> = ?p2"
    using tok u by (simp add: fields)
  have left: "parse_sub_expression (Suc (3 + n)) glt (?p2\<lparr>end_index := token_index ?p2\<rparr>)
      = Some (Inr (Some (binary_operation_new (expr_type B) (Some A) (Some B) sub_assembly)))"
  proof -
    let ?l = "?p2\<lparr>end_index := token_index ?p2\<rparr>"
    have "parse_sub_expression (Suc (3 + n)) glt ?l = scan_groups (3 + n) glt ?l"
      by (rule parse_sub_expression_multi)
        (use assms(2,3,4) tok len in \<open>simp_all add: fields operand_token_skipped\<close>)
    also have "\<dots> = Some (Inr (Some (binary_operation_new (expr_type B) (Some A) (Some B)
         (assembly_generator_of sub_parser_ptr))))"
    proof (rule three_token_node)
      show "unat (op_group_index ?l) < length operators"
        by (simp add: operators_def)
      show "unat (start ?l) + 3 = unat (end_index ?l)"
        using u assms(2) by (simp add: fields)
      show "unat (end_index ?l) \<le> length (tokenv ?l)"
        using u len by (simp add: fields)
      show "tokenv ?l ! Suc (unat (start ?l)) \<noteq> PAREN_CLOSE"
        using tok assms(2) by (simp add: fields)
      show "find_operator (tokenv ?l ! Suc (unat (start ?l))) (operators ! unat (op_group_index ?l))
          = Some sub_parser_ptr"
        using tok assms(2) by (simp add: fields operators_def)
      show "sub_parser_ptr \<noteq> assignment_parser_ptr"
        by simp
      show "skipped (op_group_index ?l) (tokenv ?l ! Suc (Suc (unat (start ?l))))"
        using tok assms(2,5) by (simp add: fields operand_token_skipped)
      show "value_at glt (ns ?l) (line ?l) (tokenv ?l) (start ?l) = Inr (Some A)"
        using assms(7) by (simp add: fields)
      show "value_at glt (ns ?l) (line ?l) (tokenv ?l) (start ?l + 2) = Inr (Some B)"
        using assms(8) by (simp add: fields)
    qed
    finally show ?thesis
      by simp
  qed
  have right: "parse_sub_expression (Suc (3 + n)) glt (?p2\<lparr>start := token_index ?p2 + 1\<rparr>)
      = Some (Inr (Some C))"
  proof -
    let ?r = "?p2\<lparr>start := token_index ?p2 + 1\<rparr>"
    have "parse_sub_expression (Suc (3 + n)) glt ?r = Some (parse_value glt ?r)"
      by (rule parse_sub_expression_single) (simp add: fields e)
    moreover have "parse_value glt ?r = Inr (Some C)"
      using assms(9) by (simp add: parse_value_value_at fields add.commute)
    ultimately show ?thesis
      by (simp only:)
  qed
  have node: "call_parse_func (4 + n) glt sub_parser_ptr ?p2
      = Some (Inr (Some (binary_operation_new (expr_type C)
         (Some (binary_operation_new (expr_type B) (Some A) (Some B) sub_assembly))
         (Some C) sub_assembly)))"
  proof -
    have four: "4 + n = Suc (3 + n)"
      by simp
    show ?thesis
      unfolding four call_parse_func.simps binary_operation_parser.simps left right
      by simp
  qed
  have "parse_expression (Suc (12 + n)) glt ?tv curr_line s e nsp
      = Some (Inr (Some (binary_operation_new (expr_type C)
         (Some (binary_operation_new (expr_type B) (Some A) (Some B) sub_assembly))
         (Some C) sub_assembly)))"
    using exhaust found
    by (simp only: enter fuel0 p1 fuel1 p2 node)
  then show ?thesis
    by simp
qed

text \<open>
  The lemma at \<open>k a - b - c\<close>, the range starting at index 1.
\<close>

lemma value_at_abcx:
  "value_at literal_type_int namespace_abcx 7 [''k'', ''a'', ''-'', ''b'', ''-'', ''c''] 1
     = Inr (Some (var_node_new ''int'' ''a''))"
  "value_at literal_type_int namespace_abcx 7 [''k'', ''a'', ''-'', ''b'', ''-'', ''c''] (1 + 2)
     = Inr (Some (var_node_new ''int'' ''b''))"
  "value_at literal_type_int namespace_abcx 7 [''k'', ''a'', ''-'', ''b'', ''-'', ''c''] (1 + 4)
     = Inr (Some (var_node_new ''int'' ''c''))"
  by (simp_all add: value_at_def eval_parser)

lemma subtraction_chain_left_associative_instance:
  "parse_expression 13 literal_type_int [''k'', ''a'', ''-'', ''b'', ''-'', ''c''] 7 1 6
       namespace_abcx
     = Some (Inr (Some (binary_operation_new ''int''
         (Some (binary_operation_new ''int''
           (Some (var_node_new ''int'' ''a'')) (Some (var_node_new ''int'' ''b'')) sub_assembly))
         (Some (var_node_new ''int'' ''c'')) sub_assembly)))"
  using subtraction_chain_left_associative [where pre = "[''k'']" and post = "[]" and s = 1
      and e = 6 and n = 0 and a = "''a''" and b = "''b''" and c = "''c''",
      OF _ _ _ operand_token_abc value_at_abcx]
  by simp

text \<open>
  C6. \<open>a - b - c\<close> is to parse as \<open>(a - b) - c\<close>. It does when the range starts at index 1.
  When the range starts at index 0, the scan of the first group passes index 0 without
  finding \<open>=\<close>, \<open>token_index\<close> wraps to the largest index, and the next read of the token
  vector is out of range: no tree is built.
\<close>

theorem subtraction_chain_at_index_0:
  "parse_expression (30 + n) literal_type_int [''a'', ''-'', ''b'', ''-'', ''c''] 7 0 5 namespace_abcx
     = Some (Inl Out_Of_Range_Read)
   \<and> parse_expression (30 + n) literal_type_int [''k'', ''a'', ''-'', ''b'', ''-'', ''c''] 7 1 6
       namespace_abcx
     = Some (Inr (Some (binary_operation_new ''int''
         (Some (binary_operation_new ''int''
           (Some (var_node_new ''int'' ''a'')) (Some (var_node_new ''int'' ''b'')) sub_assembly))
         (Some (var_node_new ''int'' ''c'')) sub_assembly)))"
  by (intro conjI more_fuel_parse_expression) (simp_all add: eval_parser eval_matcher)

text \<open>
  Under the same conditions \<open>a + b * c\<close> parses to the sum of \<open>a\<close> and the product, with
  19 units of fuel or more.
\<close>

lemma sum_of_product_precedence:
  fixes tv pre post :: vec and s e :: size_t
  assumes "pre \<noteq> []" and "unat s = length pre" and "unat e = length pre + 5"
    and "operand_token a" and "operand_token b" and "operand_token c"
    and "value_at glt nsp curr_line tv s = Inr (Some A)"
    and "value_at glt nsp curr_line tv (s + 2) = Inr (Some B)"
    and "value_at glt nsp curr_line tv (s + 4) = Inr (Some C)"
    and "tv = pre @ [a, ''+'', b, ''*'', c] @ post"
  shows "parse_expression (19 + n) glt tv curr_line s e nsp
     = Some (Inr (Some (binary_operation_new (expr_type C) (Some A)
         (Some (binary_operation_new (expr_type C) (Some B) (Some C) mul_assembly))
         add_assembly)))"
proof -
  let ?mid = "[a, ''+'', b, ''*'', c]"
  let ?p0 = "init_expression_parser uninitialized_parser tv curr_line s e nsp"
  let ?p1 = "?p0\<lparr>op_group_index := 1\<rparr>"
  let ?p2 = "?p1\<lparr>token_index := s + 1, token := ''+''\<rparr>"
  let ?product = "binary_operation_new (expr_type C) (Some B) (Some C) mul_assembly"
  note fields = init_expression_parser_fields
  have nth: "tv ! (length pre + j) = ?mid ! j" if "j < 5" for j
  proof -
    have "tv ! (length pre + j) = (?mid @ post) ! j"
      unfolding assms(10) by (rule nth_append_length_plus)
    also have "\<dots> = ?mid ! j"
      using that by (subst nth_append) simp
    finally show ?thesis .
  qed
  have tok: "tv ! length pre = a" "tv ! Suc (length pre) = ''+''"
    "tv ! Suc (Suc (length pre)) = b" "tv ! (length pre + 3) = ''*''"
    "tv ! (length pre + 4) = c"
    using nth [of 0] nth [of 1] nth [of 2] nth [of 3] nth [of 4] by simp_all
  have tok': "tv ! Suc (Suc (Suc (length pre))) = ''*''"
    "tv ! Suc (Suc (Suc (Suc (length pre)))) = c"
    using tok(4,5) by (simp_all add: eval_nat_numeral)
  have len: "length pre + 5 \<le> length tv"
    unfolding assms(10) by simp
  have lt: "unat s + 5 < 2 ^ 64"
    using assms(2,3) unat_size_t_bound [of e] by simp
  have u: "unat (s + 1) = length pre + 1" "unat (s + 2) = length pre + 2"
    "unat (s + 3) = length pre + 3" "unat (s + 4) = length pre + 4"
    using unat_plus_of_nat [of s 1] unat_plus_of_nat [of s 2] unat_plus_of_nat [of s 3]
      unat_plus_of_nat [of s 4] lt assms(2) by simp_all
  have e: "e = s + 5"
    using unat_plus_of_nat [of s 5] lt assms(2,3) by (simp add: word_unat_eq_iff)
  have skip: "skipped 0 (tv ! m) \<and> (length pre + 2 \<le> m \<longrightarrow> skipped 1 (tv ! m))"
    if "length pre \<le> m" and "m < length pre + 5" for m
  proof -
    define j where "j = m - length pre"
    have m: "m = length pre + j" and j: "j < 5"
      using that by (simp_all add: j_def)
    have "j = 0 \<or> j = 1 \<or> j = 2 \<or> j = 3 \<or> j = 4"
      using j by arith
    then show ?thesis
      using tok assms(4,5,6) by (auto simp: m operand_token_skipped skipped_operators)
  qed
  have enter: "parse_expression (Suc (18 + n)) glt tv curr_line s e nsp
      = scan_groups (18 + n) glt ?p0"
    by (rule parse_expression_multi)
      (use assms(2,4) tok e len in \<open>simp_all add: operand_token_skipped\<close>)
  have exhaust: "scan_groups (unat (end_index ?p0) - unat (start ?p0) + Suc (12 + n)) glt ?p0
      = scan_groups (12 + n) glt (?p0\<lparr>op_group_index := op_group_index ?p0 + 1\<rparr>)"
  proof (rule scan_groups_exhaust)
    show "unat (op_group_index ?p0) < length operators"
      by (simp add: fields operators_def)
    show "0 < unat (start ?p0)"
      using assms(1,2) by (simp add: fields)
    show "unat (start ?p0) < unat (end_index ?p0)"
      using assms(2,3) by (simp add: fields)
    show "unat (end_index ?p0) \<le> length (tokenv ?p0)"
      using assms(3) len by (simp add: fields)
    show "skipped (op_group_index ?p0) (tokenv ?p0 ! m)"
      if "unat (start ?p0) \<le> m" and "m < unat (end_index ?p0)" for m
      using skip [of m] that assms(2,3) by (simp add: fields)
  qed
  have fuel0: "unat (end_index ?p0) - unat (start ?p0) + Suc (12 + n) = 18 + n"
    using assms(2,3) by (simp add: fields)
  have p1: "?p0\<lparr>op_group_index := op_group_index ?p0 + 1\<rparr> = ?p1"
    by (simp add: fields)
  have found: "scan_groups (unat (end_index ?p1) - Suc (unat (s + 1)) + Suc (8 + n)) glt ?p1
      = call_parse_func (8 + n) glt add_parser_ptr
          (?p1\<lparr>token_index := s + 1, token := tokenv ?p1 ! unat (s + 1)\<rparr>)"
  proof (rule scan_groups_found)
    show "unat (op_group_index ?p1) < length operators"
      by (simp add: operators_def)
    show "unat (start ?p1) \<le> unat (s + 1)"
      using u assms(2) by (simp add: fields)
    show "unat (s + 1) < unat (end_index ?p1)"
      using u assms(3) by (simp add: fields)
    show "unat (end_index ?p1) \<le> length (tokenv ?p1)"
      using assms(3) len by (simp add: fields)
    show "skipped (op_group_index ?p1) (tokenv ?p1 ! m)"
      if "unat (s + 1) < m" and "m < unat (end_index ?p1)" for m
      using skip [of m] that u assms(3) by (simp add: fields)
    show "tokenv ?p1 ! unat (s + 1) \<noteq> PAREN_CLOSE"
      using tok u by (simp add: fields)
    show "find_operator (tokenv ?p1 ! unat (s + 1)) (operators ! unat (op_group_index ?p1))
        = Some add_parser_ptr"
      using tok u by (simp add: fields operators_def)
  qed
  have fuel1: "unat (end_index ?p1) - Suc (unat (s + 1)) + Suc (8 + n) = 12 + n"
    using u assms(3) by (simp add: fields)
  have p2: "?p1\<lparr>token_index := s + 1, token := tokenv ?p1 ! unat (s + 1)\<rparr> = ?p2"
    using tok u by (simp add: fields)
  have left: "parse_sub_expression (Suc (7 + n)) glt (?p2\<lparr>end_index := token_index ?p2\<rparr>)
      = Some (Inr (Some A))"
  proof -
    let ?l = "?p2\<lparr>end_index := token_index ?p2\<rparr>"
    have "parse_sub_expression (Suc (7 + n)) glt ?l = Some (parse_value glt ?l)"
      by (rule parse_sub_expression_single) (simp add: fields)
    moreover have "parse_value glt ?l = Inr (Some A)"
      using assms(7) by (simp add: parse_value_value_at fields)
    ultimately show ?thesis
      by (simp only:)
  qed
  have right: "parse_sub_expression (Suc (7 + n)) glt (?p2\<lparr>start := token_index ?p2 + 1\<rparr>)
      = Some (Inr (Some ?product))"
  proof -
    let ?r = "?p2\<lparr>start := token_index ?p2 + 1\<rparr>"
    let ?r2 = "?r\<lparr>op_group_index := 2\<rparr>"
    have multi: "parse_sub_expression (Suc (7 + n)) glt ?r = scan_groups (7 + n) glt ?r"
      by (rule parse_sub_expression_multi)
        (use assms(2,3,5) tok u len e in \<open>simp_all add: fields operand_token_skipped add.commute\<close>)
    have ex1: "scan_groups (unat (end_index ?r) - unat (start ?r) + Suc (3 + n)) glt ?r
        = scan_groups (3 + n) glt (?r\<lparr>op_group_index := op_group_index ?r + 1\<rparr>)"
    proof (rule scan_groups_exhaust)
      show "unat (op_group_index ?r) < length operators"
        by (simp add: operators_def)
      show "0 < unat (start ?r)"
        using u by (simp add: add.commute)
      show "unat (start ?r) < unat (end_index ?r)"
        using u assms(3) by (simp add: fields add.commute)
      show "unat (end_index ?r) \<le> length (tokenv ?r)"
        using assms(3) len by (simp add: fields add.commute)
      show "skipped (op_group_index ?r) (tokenv ?r ! m)"
        if "unat (start ?r) \<le> m" and "m < unat (end_index ?r)" for m
        using skip [of m] that u assms(3) by (simp add: fields add.commute)
    qed
    have fuel2: "unat (end_index ?r) - unat (start ?r) + Suc (3 + n) = 7 + n"
      using u assms(3) by (simp add: fields add.commute)
    have r2: "?r\<lparr>op_group_index := op_group_index ?r + 1\<rparr> = ?r2"
      by simp
    have three: "scan_groups (3 + n) glt ?r2
        = Some (Inr (Some (binary_operation_new (expr_type C) (Some B) (Some C)
           (assembly_generator_of mul_parser_ptr))))"
    proof (rule three_token_node)
      show "unat (op_group_index ?r2) < length operators"
        by (simp add: operators_def)
      show "unat (start ?r2) + 3 = unat (end_index ?r2)"
        using u assms(3) by (simp add: fields add.commute)
      show "unat (end_index ?r2) \<le> length (tokenv ?r2)"
        using assms(3) len by (simp add: fields add.commute)
      show "tokenv ?r2 ! Suc (unat (start ?r2)) \<noteq> PAREN_CLOSE"
        using tok tok' u by (simp add: fields add.commute)
      show "find_operator (tokenv ?r2 ! Suc (unat (start ?r2)))
          (operators ! unat (op_group_index ?r2)) = Some mul_parser_ptr"
        using tok tok' u by (simp add: fields operators_def add.commute)
      show "mul_parser_ptr \<noteq> assignment_parser_ptr"
        by simp
      show "skipped (op_group_index ?r2) (tokenv ?r2 ! Suc (Suc (unat (start ?r2))))"
        using tok tok' u assms(6) by (simp add: fields operand_token_skipped add.commute)
      show "value_at glt (ns ?r2) (line ?r2) (tokenv ?r2) (start ?r2) = Inr (Some B)"
        using assms(8) by (simp add: fields add.commute)
      show "value_at glt (ns ?r2) (line ?r2) (tokenv ?r2) (start ?r2 + 2) = Inr (Some C)"
        using assms(9) by (simp add: fields add.commute)
    qed
    show ?thesis
      using ex1 by (simp only: multi fuel2 r2 three assembly_generator_of.simps)
  qed
  have node: "call_parse_func (8 + n) glt add_parser_ptr ?p2
      = Some (Inr (Some (binary_operation_new (expr_type C) (Some A) (Some ?product)
          add_assembly)))"
  proof -
    have eight: "8 + n = Suc (7 + n)"
      by simp
    show ?thesis
      unfolding eight call_parse_func.simps binary_operation_parser.simps left right
      by simp
  qed
  have "parse_expression (Suc (18 + n)) glt tv curr_line s e nsp
      = Some (Inr (Some (binary_operation_new (expr_type C) (Some A) (Some ?product)
          add_assembly)))"
    using exhaust found
    by (simp only: enter fuel0 p1 fuel1 p2 node)
  then show ?thesis
    by simp
qed

text \<open>
  The lemma at \<open>k a + b * c\<close>, the range starting at index 1.
\<close>

lemma value_at_abc_product:
  "value_at literal_type_int namespace_abcx 7 [''k'', ''a'', ''+'', ''b'', ''*'', ''c''] 1
     = Inr (Some (var_node_new ''int'' ''a''))"
  "value_at literal_type_int namespace_abcx 7 [''k'', ''a'', ''+'', ''b'', ''*'', ''c''] (1 + 2)
     = Inr (Some (var_node_new ''int'' ''b''))"
  "value_at literal_type_int namespace_abcx 7 [''k'', ''a'', ''+'', ''b'', ''*'', ''c''] (1 + 4)
     = Inr (Some (var_node_new ''int'' ''c''))"
  by (simp_all add: value_at_def eval_parser)

lemma sum_of_product_precedence_instance:
  "parse_expression 19 literal_type_int [''k'', ''a'', ''+'', ''b'', ''*'', ''c''] 7 1 6
       namespace_abcx
     = Some (Inr (Some (binary_operation_new ''int''
         (Some (var_node_new ''int'' ''a''))
         (Some (binary_operation_new ''int''
           (Some (var_node_new ''int'' ''b'')) (Some (var_node_new ''int'' ''c'')) mul_assembly))
         add_assembly)))"
  using sum_of_product_precedence [where pre = "[''k'']" and post = "[]" and s = 1
      and e = 6 and n = 0 and a = "''a''" and b = "''b''" and c = "''c''",
      OF _ _ _ operand_token_abc value_at_abc_product]
  by simp

text \<open>
  C7. \<open>a + b * c\<close> is to parse as \<open>a + (b * c)\<close>. It does when the range starts at index 1,
  and for the same reason as above no tree is built when the range starts at index 0.
\<close>

theorem sum_of_product_at_index_0:
  "parse_expression (30 + n) literal_type_int [''a'', ''+'', ''b'', ''*'', ''c''] 7 0 5 namespace_abcx
     = Some (Inl Out_Of_Range_Read)
   \<and> parse_expression (30 + n) literal_type_int [''k'', ''a'', ''+'', ''b'', ''*'', ''c''] 7 1 6
       namespace_abcx
     = Some (Inr (Some (binary_operation_new ''int''
         (Some (var_node_new ''int'' ''a''))
         (Some (binary_operation_new ''int''
           (Some (var_node_new ''int'' ''b'')) (Some (var_node_new ''int'' ''c'')) mul_assembly))
         add_assembly)))"
  by (intro conjI more_fuel_parse_expression) (simp_all add: eval_parser eval_matcher)

section \<open>C8: assignment\<close>

text \<open>
  C8. Take a statement from \<open>s\<close> to \<open>e\<close> of several tokens that does not start with a
  parenthesis, with \<open>=\<close> at index \<open>i\<close> and neither \<open>=\<close> nor a closing parenthesis to the
  right of \<open>i\<close>: the scan of the first group finds the \<open>=\<close> at \<open>i\<close>. Unless \<open>i\<close> is one more
  than the start of the statement, the result is the invalid-assignment error. Otherwise
  the right side is parsed from \<open>i + 1\<close> to the end of the statement, from the first group,
  and when it gives a value the result is the assignment node with the type of that value,
  the looked-up variable on the left and the value on the right.
\<close>

theorem assignment_statement:
  fixes tv :: vec and s e i :: size_t
  assumes "unat s \<le> unat i" and "unat i < unat e" and "unat e \<le> length tv"
    and "s + 1 \<noteq> e"
    and "tv ! unat s \<noteq> PAREN_OPEN" and "tv ! unat s \<noteq> PAREN_CLOSE"
    and "tv ! unat i = ''=''"
    and "\<And>j. unat i < j \<Longrightarrow> j < unat e \<Longrightarrow> tv ! j \<noteq> ''='' \<and> tv ! j \<noteq> PAREN_CLOSE"
  shows "(i - s \<noteq> 1 \<longrightarrow>
            parse_expression (Suc (unat e - Suc (unat i) + Suc n)) glt tv curr_line s e nsp
              = Some (Inl (Compiler_Error ''Invalid Assignment'' curr_line)))
       \<and> (i - s = 1
            \<and> parse_sub_expression n glt (value_parser tv curr_line s e i nsp)
                = Some (Inr (Some val)) \<longrightarrow>
            parse_expression (Suc (unat e - Suc (unat i) + Suc n)) glt tv curr_line s e nsp
              = Some (Inr (Some (binary_operation_new (expr_type val)
                  (var_lookup nsp (tv ! unat s)) (Some val) assignment_assembly)))
            \<and> start (value_parser tv curr_line s e i nsp) = i + 1
            \<and> end_index (value_parser tv curr_line s e i nsp) = e
            \<and> op_group_index (value_parser tv curr_line s e i nsp) = 0)"
proof -
  let ?p = "init_expression_parser uninitialized_parser tv curr_line s e nsp"
  let ?found = "?p\<lparr>token_index := i, token := ''=''\<rparr>"
  note fields = init_expression_parser_fields
  have enter: "parse_expression (Suc (unat e - Suc (unat i) + Suc n)) glt tv curr_line s e nsp
      = scan_groups (unat e - Suc (unat i) + Suc n) glt ?p"
    by (rule parse_expression_multi [OF _ assms(5,6,4)]) (use assms(1,2,3) in simp)
  have found: "scan_groups (unat (end_index ?p) - Suc (unat i) + Suc n) glt ?p
      = call_parse_func n glt assignment_parser_ptr
          (?p\<lparr>token_index := i, token := tokenv ?p ! unat i\<rparr>)"
  proof (rule scan_groups_found)
    show "unat (op_group_index ?p) < length operators"
      by (simp add: fields operators_def)
    show "unat (start ?p) \<le> unat i"
      using assms(1) by (simp add: fields)
    show "unat i < unat (end_index ?p)"
      using assms(2) by (simp add: fields)
    show "unat (end_index ?p) \<le> length (tokenv ?p)"
      using assms(3) by (simp add: fields)
    show "skipped (op_group_index ?p) (tokenv ?p ! m)"
      if "unat i < m" and "m < unat (end_index ?p)" for m
      using assms(8) [of m] that by (simp add: fields skipped_assignment_group)
    show "tokenv ?p ! unat i \<noteq> PAREN_CLOSE"
      using assms(7) by (simp add: fields)
    show "find_operator (tokenv ?p ! unat i) (operators ! unat (op_group_index ?p))
        = Some assignment_parser_ptr"
      using assms(7) by (simp add: fields operators_def)
  qed
  have scan: "scan_groups (unat e - Suc (unat i) + Suc n) glt ?p = assignment_parser n glt ?found"
    using found assms(7) by (simp only: fields call_parse_func.simps)
  have bad: "assignment_parser n glt ?found
      = Some (Inl (Compiler_Error ''Invalid Assignment'' curr_line))" if "i - s \<noteq> 1"
    using that by (simp add: fields)
  have good: "assignment_parser n glt ?found
      = Some (Inr (Some (binary_operation_new (expr_type val)
                  (var_lookup nsp (tv ! unat s)) (Some val) assignment_assembly)))"
    if "i - s = 1" and "parse_sub_expression n glt (value_parser tv curr_line s e i nsp)
                = Some (Inr (Some val))"
  proof -
    from that(1) have prev: "i - 1 = s"
      by (simp add: algebra_simps)
    have vp: "?found\<lparr>start := i + 1\<rparr> = value_parser tv curr_line s e i nsp"
      by (simp add: value_parser_def init_expression_parser_def uninitialized_parser_def)
    show ?thesis
      using that assms(1,2,3) prev vp by (simp add: fields vec_get_def)
  qed
  show ?thesis
    unfolding enter scan
    using bad good
    by (simp add: value_parser_def fields del: assignment_parser.simps)
qed

theorem assignment_statement_witness:
  "parse_expression 17 literal_type_int [''x'', ''='', ''a'', ''+'', ''b''] 7 0 5 namespace_abcx
     = Some (Inr (Some (binary_operation_new ''int'' (Some (var_node_new ''int'' ''x''))
         (Some (binary_operation_new ''int'' (Some (var_node_new ''int'' ''a''))
            (Some (var_node_new ''int'' ''b'')) add_assembly))
         assignment_assembly)))
   \<and> parse_expression 3 literal_type_int [''x'', ''+'', ''a'', ''='', ''b''] 7 0 5 namespace_abcx
     = Some (Inl (Compiler_Error ''Invalid Assignment'' 7))"
proof -
  let ?good = "[''x'', ''='', ''a'', ''+'', ''b'']"
  let ?bad = "[''x'', ''+'', ''a'', ''='', ''b'']"
  let ?sum = "binary_operation_new ''int'' (Some (var_node_new ''int'' ''a''))
            (Some (var_node_new ''int'' ''b'')) add_assembly"
  have g1: "unat (0 :: size_t) \<le> unat (1 :: size_t)" and g2: "unat (1 :: size_t) < unat (5 :: size_t)"
    and g3: "unat (5 :: size_t) \<le> length ?good" and g4: "(0 :: size_t) + 1 \<noteq> 5"
    and g5: "?good ! unat (0 :: size_t) \<noteq> PAREN_OPEN"
    and g6: "?good ! unat (0 :: size_t) \<noteq> PAREN_CLOSE"
    and g7: "?good ! unat (1 :: size_t) = ''=''"
    by simp_all
  have g8: "?good ! j \<noteq> ''='' \<and> ?good ! j \<noteq> PAREN_CLOSE"
    if "unat (1 :: size_t) < j" and "j < unat (5 :: size_t)" for j
    using index_between_1_and_5 [OF that] by auto
  have g9: "(1 :: size_t) - 0 = 1"
    by simp
  have g10: "parse_sub_expression 12 literal_type_int
      (value_parser ?good 7 0 5 1 namespace_abcx) = Some (Inr (Some ?sum))"
    by (simp add: eval_parser value_parser_def)
  have good: "parse_expression (Suc (unat (5 :: size_t) - Suc (unat (1 :: size_t)) + Suc 12))
      literal_type_int ?good 7 0 5 namespace_abcx
      = Some (Inr (Some (binary_operation_new (expr_type ?sum)
          (var_lookup namespace_abcx (?good ! unat (0 :: size_t))) (Some ?sum)
          assignment_assembly)))"
    by (rule assignment_statement [where n = 12 and glt = literal_type_int and curr_line = 7
          and nsp = namespace_abcx and val = ?sum, OF g1 g2 g3 g4 g5 g6 g7,
          THEN conjunct2, THEN mp, THEN conjunct1])
      (use g8 g9 g10 in blast)+
  have b1: "unat (0 :: size_t) \<le> unat (3 :: size_t)" and b2: "unat (3 :: size_t) < unat (5 :: size_t)"
    and b3: "unat (5 :: size_t) \<le> length ?bad"
    and b5: "?bad ! unat (0 :: size_t) \<noteq> PAREN_OPEN"
    and b6: "?bad ! unat (0 :: size_t) \<noteq> PAREN_CLOSE"
    and b7: "?bad ! unat (3 :: size_t) = ''=''"
    by simp_all
  have b8: "?bad ! j \<noteq> ''='' \<and> ?bad ! j \<noteq> PAREN_CLOSE"
    if "unat (3 :: size_t) < j" and "j < unat (5 :: size_t)" for j
    using index_between_3_and_5 [OF that] by simp
  have b9: "(3 :: size_t) - 0 \<noteq> 1"
    by simp
  have bad: "parse_expression (Suc (unat (5 :: size_t) - Suc (unat (3 :: size_t)) + Suc 0))
      literal_type_int ?bad 7 0 5 namespace_abcx
      = Some (Inl (Compiler_Error ''Invalid Assignment'' 7))"
    by (rule assignment_statement [where n = 0 and glt = literal_type_int and curr_line = 7
          and nsp = namespace_abcx, OF b1 b2 b3 g4 b5 b6 b7, THEN conjunct1, THEN mp])
      (use b8 b9 in blast)+
  have f1: "Suc (unat (5 :: size_t) - Suc (unat (1 :: size_t)) + Suc 12) = 17"
    and f2: "Suc (unat (5 :: size_t) - Suc (unat (3 :: size_t)) + Suc 0) = 3"
    by simp_all
  from good bad show ?thesis
    unfolding f1 f2 by (simp add: var_lookup_def namespace_abcx_def)
qed

section \<open>C9: single tokens\<close>

text \<open>
  C9. For a range of one token: if the literal-type inference knows the token, the result is
  the literal leaf with the inferred type and the token; otherwise, if the namespace knows
  it, the variable leaf with the declared type and the token; otherwise the invalid-value
  error. The literal test comes first: a token that is both is a literal.
\<close>

theorem single_token_resolution:
  assumes "start p + 1 = end_index p" and "vec_get (tokenv p) (start p) = Inr tok"
  shows "(glt tok = Some ty \<longrightarrow>
            parse_sub_expression (Suc n) glt p = Some (Inr (Some (literal_node_new ty tok))))
       \<and> (glt tok = None \<and> var_lookup (ns p) tok = Some var \<longrightarrow>
            parse_sub_expression (Suc n) glt p
              = Some (Inr (Some (var_node_new (expr_type var) tok))))
       \<and> (glt tok = None \<and> var_lookup (ns p) tok = None \<longrightarrow>
            parse_sub_expression (Suc n) glt p
              = Some (Inl (Compiler_Error ''Invalid Value'' (line p))))"
  using assms by (simp add: parse_value_def)

theorem single_token_resolution_witness:
  "parse_sub_expression (Suc 0) literal_type_int (parser_single [''k'', ''1'', ''k''])
     = Some (Inr (Some (literal_node_new ''int'' ''1'')))
   \<and> parse_sub_expression (Suc 0) literal_type_int (parser_single [''k'', ''a'', ''k''])
     = Some (Inr (Some (var_node_new ''int'' ''a'')))
   \<and> parse_sub_expression (Suc 0) literal_type_int (parser_single [''k'', ''z'', ''k''])
     = Some (Inl (Compiler_Error ''Invalid Value'' 7))"
proof -
  have r: "start (parser_single tv) + 1 = end_index (parser_single tv)" for tv
    by (simp add: parser_single_def)
  have t: "vec_get (tokenv (parser_single [''k'', tok, ''k''])) (start (parser_single [''k'', tok, ''k'']))
      = Inr tok" for tok
    by (simp add: parser_single_def vec_get_def)
  have l1: "literal_type_int ''1'' = Some ''int''"
    by (simp add: literal_type_int_def)
  have l2: "literal_type_int ''a'' = None
      \<and> var_lookup (ns (parser_single [''k'', ''a'', ''k''])) ''a'' = Some (var_node_new ''int'' ''a'')"
    by (simp add: literal_type_int_def var_lookup_def parser_single_def namespace_abcx_def)
  have l3: "literal_type_int ''z'' = None
      \<and> var_lookup (ns (parser_single [''k'', ''z'', ''k''])) ''z'' = None"
    by (simp add: literal_type_int_def var_lookup_def parser_single_def namespace_abcx_def)
  have a: "parse_sub_expression (Suc 0) literal_type_int (parser_single [''k'', ''1'', ''k''])
     = Some (Inr (Some (literal_node_new ''int'' ''1'')))"
    using single_token_resolution [where glt = literal_type_int, OF r t, THEN conjunct1,
        rule_format, OF l1] .
  have b: "parse_sub_expression (Suc 0) literal_type_int (parser_single [''k'', ''a'', ''k''])
     = Some (Inr (Some (var_node_new ''int'' ''a'')))"
    using single_token_resolution [where glt = literal_type_int, OF r t, THEN conjunct2,
        THEN conjunct1, rule_format, OF l2]
    by simp
  have c: "parse_sub_expression (Suc 0) literal_type_int (parser_single [''k'', ''z'', ''k''])
     = Some (Inl (Compiler_Error ''Invalid Value'' 7))"
    using single_token_resolution [where glt = literal_type_int, OF r t, THEN conjunct2,
        THEN conjunct2, rule_format, OF l3]
    by (simp add: parser_single_def)
  from a b c show ?thesis by blast
qed

text \<open>
  An operand that resolves to nothing: \<open>a + z\<close> with \<open>z\<close> neither a literal nor declared
  fails with the invalid-value error.
\<close>

lemma unknown_identifier_operand:
  "parse_expression 30 literal_type_int [''k'', ''a'', ''+'', ''z''] 7 1 4 namespace_abcx
     = Some (Inl (Compiler_Error ''Invalid Value'' 7))"
  by (simp add: eval_parser eval_matcher)

section \<open>C10: the scan at index 0\<close>

text \<open>
  With \<open>start\<close> at 0 the test of the \<^verbatim>\<open>while\<close> loop holds for every \<open>token_index\<close>.
\<close>

lemma scan_test_holds_at_index_0:
  assumes "start p = 0"
  shows "start p \<le> token_index p"
  using assms by simp

text \<open>
  Every range of several tokens that starts at index 0, does not start with an opening
  parenthesis and has neither \<open>=\<close> nor a closing parenthesis ends in a read out of range.
\<close>

lemma assignment_free_range_at_index_0:
  fixes tv :: vec and e :: size_t
  assumes "1 < unat e" and "unat e \<le> length tv" and "length tv < 2 ^ 64"
    and "tv ! 0 \<noteq> PAREN_OPEN"
    and "\<And>m. m < unat e \<Longrightarrow> tv ! m \<noteq> ''='' \<and> tv ! m \<noteq> PAREN_CLOSE"
  shows "parse_expression (Suc (unat e + Suc n)) glt tv curr_line 0 e nsp
     = Some (Inl Out_Of_Range_Read)"
proof -
  let ?p0 = "init_expression_parser uninitialized_parser tv curr_line 0 e nsp"
  note fields = init_expression_parser_fields
  have e1: "0 + 1 \<noteq> e"
    using assms(1) by auto
  have enter: "parse_expression (Suc (unat e + Suc n)) glt tv curr_line 0 e nsp
      = scan_groups (unat e + Suc n) glt ?p0"
    by (rule parse_expression_multi [OF _ _ _ e1])
      (use assms(1,2,4) assms(5) [of 0] in auto)
  have wrap: "scan_groups (unat (end_index ?p0) + Suc n) glt ?p0 = Some (Inl Out_Of_Range_Read)"
  proof (rule scan_groups_wrap)
    show "unat (op_group_index ?p0) < length operators"
      by (simp add: fields operators_def)
    show "start ?p0 = 0"
      by (simp add: fields)
    show "0 < unat (end_index ?p0)"
      using assms(1) by (simp add: fields)
    show "unat (end_index ?p0) \<le> length (tokenv ?p0)"
      using assms(2) by (simp add: fields)
    show "length (tokenv ?p0) < 2 ^ 64"
      using assms(3) by (simp add: fields)
    show "skipped (op_group_index ?p0) (tokenv ?p0 ! m)" if "m < unat (end_index ?p0)" for m
      using assms(5) [of m] that by (simp add: fields skipped_assignment_group)
  qed
  show ?thesis
    using wrap by (simp only: enter fields)
qed

text \<open>
  The lemma at \<open>a + b\<close>, the range starting at index 0.
\<close>

lemma assignment_free_range_at_index_0_instance:
  "parse_expression 5 literal_type_int [''a'', ''+'', ''b''] 7 0 3 namespace_abcx
     = Some (Inl Out_Of_Range_Read)"
proof -
  have tokens: "[''a'', ''+'', ''b''] ! m \<noteq> ''='' \<and> [''a'', ''+'', ''b''] ! m \<noteq> PAREN_CLOSE"
    if "m < unat (3 :: size_t)" for m
  proof -
    have "m = 0 \<or> m = 1 \<or> m = 2"
      using that by auto
    then show ?thesis
      by auto
  qed
  have "parse_expression (Suc (unat (3 :: size_t) + Suc 0)) literal_type_int
      [''a'', ''+'', ''b''] 7 0 3 namespace_abcx = Some (Inl Out_Of_Range_Read)"
    by (rule assignment_free_range_at_index_0) (use tokens in simp_all)
  then show ?thesis
    by simp
qed

text \<open>
  C10. The scan is to stop when \<open>token_index\<close> goes below \<open>start\<close>. With \<open>start\<close> at 0
  that never happens: \<open>token_index\<close> is unsigned, so one less than 0 is the largest index
  and the test \<^verbatim>\<open>token_index >= start\<close> holds again. For \<open>a + b\<close> at index 0 the scan of
  the first group goes on past the left edge and reads the token vector out of range.
\<close>

theorem scan_wraps_below_index_0:
  "parse_expression (30 + n) literal_type_int [''a'', ''+'', ''b''] 7 0 3 namespace_abcx
     = Some (Inl Out_Of_Range_Read)
   \<and> (0 :: size_t) - 1 = 18446744073709551615
   \<and> start (init_expression_parser uninitialized_parser [''a'', ''+'', ''b''] 7 0 3
         namespace_abcx\<lparr>token_index := 0 - 1\<rparr>)
       \<le> token_index (init_expression_parser uninitialized_parser [''a'', ''+'', ''b''] 7 0 3
         namespace_abcx\<lparr>token_index := 0 - 1\<rparr>)"
  by (intro conjI more_fuel_parse_expression) (simp_all add: eval_parser eval_matcher)

end
